theory Spec2Isabelle
  imports Main "HOL-Library.Sublist" "HOL-Library.Multiset"
begin

section \<open>Python values used by \<^verbatim>\<open>jupyterlab_templates/extension.py\<close>\<close>

text \<open>
  Exceptions are values. \<open>FileNotFoundError\<close> and \<open>PermissionError\<close> are the two that
  \<open>_old\<close> catches; \<open>OSError\<close> stands for every other error of \<open>open\<close> (for instance
  \<open>IsADirectoryError\<close>), \<open>UnicodeDecodeError\<close> for bytes that are not UTF-8, \<open>KeyError\<close> for
  a failed dictionary subscript, \<open>RuntimeError\<close> for a second \<open>finish()\<close>, \<open>TypeError\<close> for a
  value \<open>json.dumps\<close> cannot serialise and \<open>StoreError\<close> for whatever the contents manager
  raises.
\<close>

datatype py_error =
    FileNotFoundError
  | PermissionError
  | OSError
  | UnicodeDecodeError
  | KeyError string
  | RuntimeError
  | TypeError
  | StoreError

subsection \<open>String operations\<close>

text \<open>\<open>needle in hay\<close> on Python strings: \<open>needle\<close> occurs as a contiguous substring.\<close>

fun str_in :: "string \<Rightarrow> string \<Rightarrow> bool" where
  "str_in needle [] = (needle = [])"
| "str_in needle (c # cs) = (prefix needle (c # cs) \<or> str_in needle cs)"

text \<open>
  \<open>s.replace(old, new)\<close>: every non-overlapping occurrence of \<open>old\<close>, found from the left,
  becomes \<open>new\<close>. With an empty \<open>old\<close> Python puts \<open>new\<close> before every character and at
  the end.
\<close>

fun replace_from :: "string \<Rightarrow> string \<Rightarrow> string \<Rightarrow> string" where
  "replace_from old new [] = []"
| "replace_from old new (c # cs) =
     (if old \<noteq> [] \<and> prefix old (c # cs)
      then new @ replace_from old new (drop (length old) (c # cs))
      else c # replace_from old new cs)"

definition str_replace :: "string \<Rightarrow> string \<Rightarrow> string \<Rightarrow> string" where
  "str_replace s old new =
     (if old = [] then new @ concat (map (\<lambda>c. c # new) s) else replace_from old new s)"

text \<open>\<open>s.strip(chars)\<close>: leading and trailing characters that occur in \<open>chars\<close> are removed.\<close>

definition str_strip :: "string \<Rightarrow> string \<Rightarrow> string" where
  "str_strip s chars =
     rev (dropWhile (\<lambda>c. c \<in> set chars) (rev (dropWhile (\<lambda>c. c \<in> set chars) s)))"

text \<open>\<open>os.path.sep\<close>, \<open>os.pardir\<close> and the two-argument \<open>os.path.join\<close> of \<open>posixpath\<close>.\<close>

definition sep :: string where
  "sep = ''/''"

definition pardir :: string where
  "pardir = ''..''"

definition path_join :: "string \<Rightarrow> string \<Rightarrow> string" where
  "path_join a b =
     (if b \<noteq> [] \<and> hd b = CHR ''/'' then b
      else if a = [] \<or> last a = CHR ''/'' then a @ b
      else a @ sep @ b)"

text \<open>
  \<open>os.path.split\<close> of \<open>posixpath\<close>: the head is everything up to the last slash, without
  its trailing slashes unless it consists of slashes only; the tail is the rest.
\<close>

definition path_split :: "string \<Rightarrow> string \<times> string" where
  "path_split p =
     (let tail = rev (takeWhile (\<lambda>c. c \<noteq> CHR ''/'') (rev p));
          head = take (length p - length tail) p
      in (if head \<noteq> [] \<and> \<not> list_all (\<lambda>c. c = CHR ''/'') head
          then rev (dropWhile (\<lambda>c. c = CHR ''/'') (rev head))
          else head,
          tail))"

text \<open>
  A file opened with \<open>open(p, "r", encoding="utf8")\<close> is read in universal-newlines mode
  (\<open>newline=None\<close> is the default of \<open>io.open\<close>): in the decoded text every \<open>\r\n\<close> and every
  remaining \<open>\r\<close> is delivered as \<open>\n\<close>.
\<close>

fun universal_newlines :: "string \<Rightarrow> string" where
  "universal_newlines [] = []"
| "universal_newlines (c # cs) =
     (if c = CHR 0x0D
      then (case cs of
              [] \<Rightarrow> [CHR 0x0A]
            | d # ds \<Rightarrow>
                if d = CHR 0x0A then CHR 0x0A # universal_newlines ds
                else CHR 0x0A # universal_newlines cs)
      else c # universal_newlines cs)"

section \<open>The environment of the local enumerator\<close>

text \<open>
  What the operating system and the standard library answer, as functions of the call's
  arguments:
  \<^item> \<open>walk top\<close> is the finite sequence of triples \<open>(dirname, dirnames, filenames)\<close> that
    \<open>os.walk(top, followlinks=True)\<close> yields (errors of the scan are swallowed by
    \<open>os.walk\<close> itself);
  \<^item> \<open>realpath\<close> and \<open>abspath\<close> are \<open>os.path.realpath\<close> and \<open>os.path.abspath\<close>;
  \<^item> \<open>file_utf8 p\<close> is the content of the file at \<open>p\<close>, its raw bytes decoded as UTF-8, or
    the exception that opening or decoding raises;
  \<^item> \<open>fnmatch name pat\<close> is \<open>fnmatch.fnmatch\<close>.
\<close>

record os_env =
  walk :: "string \<Rightarrow> (string \<times> string list \<times> string list) list"
  realpath :: "string \<Rightarrow> string"
  abspath :: "string \<Rightarrow> string"
  file_utf8 :: "string \<Rightarrow> py_error + string"
  fnmatch :: "string \<Rightarrow> string \<Rightarrow> bool"

text \<open>\<open>with open(p, "r", encoding="utf8") as fp: content = fp.read()\<close>.\<close>

definition open_read :: "os_env \<Rightarrow> string \<Rightarrow> py_error + string" where
  "open_read env p =
     (case file_utf8 env p of
        Inl e \<Rightarrow> Inl e
      | Inr s \<Rightarrow> Inr (universal_newlines s))"

section \<open>Data model\<close>

text \<open>The dictionary \<open>data\<close> built at lines 76-82, one per template that was read.\<close>

record template =
  path :: string
  name :: string
  dirname :: string
  filename :: string
  content :: string

text \<open>The dictionary \<open>{"name": ...}\<close> appended to a group of the catalog.\<close>

datatype summary = Summary (summary_name: string)

type_synonym catalog = "string \<rightharpoonup> summary list"

type_synonym index = "string \<rightharpoonup> template"

text \<open>
  The fields both loader classes set in \<open>__init__\<close>. \<open>template_dirs\<close> is a list of roots
  for \<open>TemplatesLoader\<close> and a dictionary from group name to root (its items, in order,
  with distinct keys) for \<open>ContentsManagerTemplatesLoader\<close>.
\<close>

record 'd loader =
  template_dirs :: 'd
  template_label :: string
  allowed_extensions :: "string list"

type_synonym TemplatesLoader = "string list loader"

type_synonym ContentsManagerTemplatesLoader = "(string \<times> string) list loader"

text \<open>\<open>x or d\<close> for an optional string or list: \<open>None\<close> and the empty value are falsy.\<close>

definition py_or :: "'a list option \<Rightarrow> 'a list \<Rightarrow> 'a list" where
  "py_or x d = (case x of None \<Rightarrow> d | Some v \<Rightarrow> if v = [] then d else v)"

definition TemplatesLoader_init ::
  "string list \<Rightarrow> string list option \<Rightarrow> string option \<Rightarrow> TemplatesLoader" where
  "TemplatesLoader_init dirs exts label =
     \<lparr>template_dirs = dirs,
      template_label = py_or label ''Template'',
      allowed_extensions = py_or exts [''*.ipynb'']\<rparr>"

definition ContentsManagerTemplatesLoader_init ::
  "(string \<times> string) list \<Rightarrow> string option \<Rightarrow> string list option \<Rightarrow>
   ContentsManagerTemplatesLoader" where
  "ContentsManagerTemplatesLoader_init dirs label exts =
     \<lparr>template_dirs = dirs,
      template_label = py_or label ''Template'',
      allowed_extensions = py_or exts [''*.ipynb'']\<rparr>"

section \<open>The local enumerator: \<open>TemplatesLoader\<close>\<close>

definition TEMPLATES_IGNORE_FILE :: string where
  "TEMPLATES_IGNORE_FILE = ''.jupyterlab_templates_ignore''"

text \<open>
  Lines 48-65, the body of the \<open>os.walk\<close> loop for one yielded triple: the entries
  \<open>(f, dirname, filename)\<close> it appends to \<open>files\<close>. The first argument of the triple is
  the directory as \<open>os.walk\<close> names it, \<open>tdir\<close> is the root (\<open>path\<close> in the source).
\<close>

definition walk_step ::
  "os_env \<Rightarrow> string list \<Rightarrow> string \<Rightarrow> string \<times> string list \<times> string list \<Rightarrow>
   (string \<times> string \<times> string) list" where
  "walk_step env exts tdir = (\<lambda>(dname, _, filenames).
     if dname = tdir then []
     else if TEMPLATES_IGNORE_FILE \<in> set filenames then []
     else concat (map
       (\<lambda>fname.
          if \<not> str_in ''.ipynb_checkpoints'' dname
          then [(path_join dname fname, str_replace dname tdir [], fname)]
          else [])
       (filter (\<lambda>x. list_ex (\<lambda>y. fnmatch env x y) exts) filenames)))"

definition collect_files ::
  "os_env \<Rightarrow> string list \<Rightarrow> string \<Rightarrow> (string \<times> string \<times> string) list" where
  "collect_files env exts tdir = concat (map (walk_step env exts tdir) (walk env tdir))"

text \<open>
  Lines 76-92, for a file \<open>(f, dirname, filename)\<close> whose content \<open>c\<close> was read: the
  group \<open>dirname.strip(os.path.sep)\<close> is created if absent, the summary is appended to
  it, and the record is stored under \<open>data["name"]\<close>.
\<close>

definition add_template ::
  "string \<times> string \<times> string \<Rightarrow> string \<Rightarrow> catalog \<times> index \<Rightarrow> catalog \<times> index" where
  "add_template = (\<lambda>(f, dname, fname) c (templates, template_by_path).
     let data = \<lparr>path = f, name = path_join dname fname, dirname = dname,
                 filename = fname, content = c\<rparr>;
         key = str_strip dname sep;
         templates1 = (if templates key = None then templates(key \<mapsto> []) else templates);
         templates2 = templates1(key \<mapsto>
            (case templates1 key of None \<Rightarrow> [] | Some l \<Rightarrow> l) @ [Summary (name data)])
     in (templates2, template_by_path(name data \<mapsto> data)))"

text \<open>
  Lines 67-92, the loop over \<open>files\<close>: a file that cannot be opened for
  \<open>FileNotFoundError\<close> or \<open>PermissionError\<close> is skipped, any other exception leaves the
  function.
\<close>

fun push_templates ::
  "os_env \<Rightarrow> string \<Rightarrow> (string \<times> string \<times> string) list \<Rightarrow> catalog \<times> index \<Rightarrow>
   py_error + catalog \<times> index" where
  "push_templates env parent [] acc = Inr acc"
| "push_templates env parent (entry # rest) acc =
     (case open_read env (path_join parent (fst entry)) of
        Inl e \<Rightarrow>
          if e = FileNotFoundError \<or> e = PermissionError
          then push_templates env parent rest acc
          else Inl e
      | Inr c \<Rightarrow> push_templates env parent rest (add_template entry c acc))"

text \<open>Lines 42-92, the loop over \<open>self.template_dirs\<close>.\<close>

fun old_loop ::
  "os_env \<Rightarrow> string list \<Rightarrow> string list \<Rightarrow> catalog \<times> index \<Rightarrow> py_error + catalog \<times> index" where
  "old_loop env exts [] acc = Inr acc"
| "old_loop env exts (tdir # dirs) acc =
     (let parent = abspath env (path_join (realpath env tdir) pardir);
          files = collect_files env exts tdir
      in case push_templates env parent files acc of
           Inl e \<Rightarrow> Inl e
         | Inr acc' \<Rightarrow> old_loop env exts dirs acc')"

text \<open>
  A method receives its object and may assign to its fields: each method below returns
  its result together with the object as the body leaves it. The contents manager is an
  argument the local enumerator never uses.
\<close>

definition TemplatesLoader_old ::
  "os_env \<Rightarrow> TemplatesLoader \<Rightarrow> 'cm \<Rightarrow> (py_error + catalog \<times> index) \<times> TemplatesLoader" where
  "TemplatesLoader_old env self contents_manager =
     (old_loop env (allowed_extensions self) (template_dirs self) (Map.empty, Map.empty), self)"

definition TemplatesLoader_get_templates ::
  "os_env \<Rightarrow> TemplatesLoader \<Rightarrow> 'cm \<Rightarrow> (py_error + catalog) \<times> TemplatesLoader" where
  "TemplatesLoader_get_templates env self contents_manager =
     (case TemplatesLoader_old env self contents_manager of
        (Inl e, self') \<Rightarrow> (Inl e, self')
      | (Inr (templates, template_by_path), self') \<Rightarrow> (Inr templates, self'))"

definition TemplatesLoader_get_template ::
  "os_env \<Rightarrow> TemplatesLoader \<Rightarrow> string \<Rightarrow> 'cm \<Rightarrow> (py_error + template) \<times> TemplatesLoader" where
  "TemplatesLoader_get_template env self p contents_manager =
     (case TemplatesLoader_old env self contents_manager of
        (Inl e, self') \<Rightarrow> (Inl e, self')
      | (Inr (templates, template_by_path), self') \<Rightarrow>
          (case template_by_path p of
             None \<Rightarrow> (Inl (KeyError p), self')
           | Some data \<Rightarrow> (Inr data, self')))"

text \<open>The names a catalog lists: the \<open>name\<close> of every summary of every group.\<close>

definition catalog_names :: "catalog \<Rightarrow> string set" where
  "catalog_names templates = {n. \<exists>g l. templates g = Some l \<and> Summary n \<in> set l}"

section \<open>The store-backed enumerator: \<open>ContentsManagerTemplatesLoader\<close>\<close>

text \<open>
  The contents manager is the host's object; the loader calls its \<open>get\<close> in two ways.
  \<open>get_directory p\<close> is \<open>contents_manager.get(p, content=True, type="directory")["content"]\<close>,
  the models of the children with their \<open>"type"\<close> and \<open>"path"\<close>, and \<open>get_notebook p\<close> is
  \<open>contents_manager.get(p, content=True, type="notebook")["content"]\<close>; either may raise.
\<close>

datatype child = Child (ctype: string) (cpath: string)

record 'nb ContentsManager =
  get_directory :: "string \<Rightarrow> py_error + child list"
  get_notebook :: "string \<Rightarrow> py_error + 'nb"

text \<open>
  Lines 120-124, the loop over \<open>dir_result["content"]\<close>. \<open>dirs_to_scan\<close> is a Python set,
  kept here as a list without repetition: \<open>add\<close> leaves it alone when the element is
  there.
\<close>

fun scan_children ::
  "child list \<Rightarrow> string list \<times> summary list \<Rightarrow> string list \<times> summary list" where
  "scan_children [] st = st"
| "scan_children (x # xs) (dirs_to_scan, found) =
     (if ctype x = ''directory'' then scan_children xs (List.insert (cpath x) dirs_to_scan, found)
      else if ctype x = ''notebook'' then scan_children xs (dirs_to_scan, found @ [Summary (cpath x)])
      else scan_children xs (dirs_to_scan, found))"

text \<open>
  Lines 116-124, the \<open>while\<close> loop. \<open>set.pop()\<close> removes an arbitrary element: \<open>pick\<close>
  decides which, from the paths asked so far and the pending ones, and every function
  is a possible \<open>pick\<close>. \<open>found\<close> is \<open>templates[name]\<close>; \<open>asked\<close> records the paths the
  store was asked to list, in order. The loop need not end: not returning is \<open>None\<close>.
\<close>

partial_function (option) scan_loop ::
  "(string list \<Rightarrow> string list \<Rightarrow> nat) \<Rightarrow> 'nb ContentsManager \<Rightarrow> string list \<Rightarrow>
   summary list \<Rightarrow> string list \<Rightarrow> (py_error + summary list \<times> string list) option" where
  "scan_loop pick cm dirs_to_scan found asked =
     (if dirs_to_scan = [] then Some (Inr (found, asked))
      else
        let i = pick asked dirs_to_scan mod length dirs_to_scan;
            p = dirs_to_scan ! i;
            remaining = take i dirs_to_scan @ drop (Suc i) dirs_to_scan
        in case get_directory cm p of
             Inl e \<Rightarrow> Some (Inl e)
           | Inr children \<Rightarrow>
               (case scan_children children (remaining, found) of
                  (pending, found') \<Rightarrow> scan_loop pick cm pending found' (asked @ [p])))"

text \<open>
  Lines 112-124, the loop over the groups of \<open>self.template_dirs\<close>; the second component
  collects what the store was asked, group after group.
\<close>

fun scan_groups ::
  "(string list \<Rightarrow> string list \<Rightarrow> nat) \<Rightarrow> 'nb ContentsManager \<Rightarrow> (string \<times> string) list \<Rightarrow>
   catalog \<times> string list \<Rightarrow> (py_error + catalog \<times> string list) option" where
  "scan_groups pick cm [] acc = Some (Inr acc)"
| "scan_groups pick cm ((gname, start) # rest) (templates, asked_before) =
     (case scan_loop pick cm [start] [] [] of
        None \<Rightarrow> None
      | Some (Inl e) \<Rightarrow> Some (Inl e)
      | Some (Inr (found, asked)) \<Rightarrow>
          scan_groups pick cm rest (templates(gname \<mapsto> found), asked_before @ asked))"

definition ContentsManagerTemplatesLoader_get_templates ::
  "(string list \<Rightarrow> string list \<Rightarrow> nat) \<Rightarrow> ContentsManagerTemplatesLoader \<Rightarrow>
   'nb ContentsManager \<Rightarrow> (py_error + catalog) option \<times> ContentsManagerTemplatesLoader" where
  "ContentsManagerTemplatesLoader_get_templates pick self contents_manager =
     (case scan_groups pick contents_manager (template_dirs self) (Map.empty, []) of
        None \<Rightarrow> (None, self)
      | Some (Inl e) \<Rightarrow> (Some (Inl e), self)
      | Some (Inr (templates, asked)) \<Rightarrow> (Some (Inr templates), self))"

text \<open>
  Lines 128-137. \<open>json_dumps\<close> is \<open>json.dumps(\<cdot>, default=json_default)\<close> on the store's
  notebook content, a library function taken as a parameter.
\<close>

definition ContentsManagerTemplatesLoader_get_template ::
  "('nb \<Rightarrow> py_error + string) \<Rightarrow> ContentsManagerTemplatesLoader \<Rightarrow> string \<Rightarrow>
   'nb ContentsManager \<Rightarrow> (py_error + template) \<times> ContentsManagerTemplatesLoader" where
  "ContentsManagerTemplatesLoader_get_template json_dumps self p contents_manager =
     (case get_notebook contents_manager p of
        Inl e \<Rightarrow> (Inl e, self)
      | Inr nb \<Rightarrow>
          (case json_dumps nb of
             Inl e \<Rightarrow> (Inl e, self)
           | Inr s \<Rightarrow>
               (Inr \<lparr>path = p, name = snd (path_split p), dirname = fst (path_split p),
                     filename = snd (path_split p), content = s\<rparr>, self)))"

text \<open>
  The directories of the store below a root, and what one directory holds. These state
  the properties of the traversal; the loader does not compute them.
\<close>

definition subdirs :: "'nb ContentsManager \<Rightarrow> string \<Rightarrow> string list" where
  "subdirs cm d =
     (case get_directory cm d of
        Inl e \<Rightarrow> []
      | Inr children \<Rightarrow> map cpath (filter (\<lambda>x. ctype x = ''directory'') children))"

definition notebooks :: "'nb ContentsManager \<Rightarrow> string \<Rightarrow> summary list" where
  "notebooks cm d =
     (case get_directory cm d of
        Inl e \<Rightarrow> []
      | Inr children \<Rightarrow> map (\<lambda>x. Summary (cpath x)) (filter (\<lambda>x. ctype x = ''notebook'') children))"

inductive_set reachable :: "'nb ContentsManager \<Rightarrow> string \<Rightarrow> string set"
  for cm :: "'nb ContentsManager" and root :: string where
  root: "root \<in> reachable cm root"
| sub: "d \<in> reachable cm root \<Longrightarrow> c \<in> set (subdirs cm d) \<Longrightarrow> c \<in> reachable cm root"

text \<open>
  A hierarchical store below \<open>root\<close>: finitely many directories, each of which the store
  lists, and every directory other than the root is listed as a child once, by one
  parent.
\<close>

definition hierarchy :: "'nb ContentsManager \<Rightarrow> string \<Rightarrow> bool" where
  "hierarchy cm root \<longleftrightarrow>
     finite (reachable cm root) \<and>
     (\<forall>d \<in> reachable cm root.
        (\<exists>children. get_directory cm d = Inr children) \<and>
        distinct (subdirs cm d) \<and> root \<notin> set (subdirs cm d)) \<and>
     (\<forall>d \<in> reachable cm root. \<forall>d' \<in> reachable cm root.
        d \<noteq> d' \<longrightarrow> set (subdirs cm d) \<inter> set (subdirs cm d') = {})"

section \<open>The content-fetch endpoint: \<open>TemplatesHandler\<close>\<close>

text \<open>\<open>self.loader\<close> is an object of one of the two loader classes.\<close>

datatype any_loader = Local TemplatesLoader | Store ContentsManagerTemplatesLoader

definition loader_get_template ::
  "os_env \<Rightarrow> ('nb \<Rightarrow> py_error + string) \<Rightarrow> any_loader \<Rightarrow> string \<Rightarrow> 'nb ContentsManager \<Rightarrow>
   (py_error + template) \<times> any_loader" where
  "loader_get_template env json_dumps ldr p contents_manager =
     (case ldr of
        Local l \<Rightarrow>
          (case TemplatesLoader_get_template env l p contents_manager of
             (r, l') \<Rightarrow> (r, Local l'))
      | Store l \<Rightarrow>
          (case ContentsManagerTemplatesLoader_get_template json_dumps l p contents_manager of
             (r, l') \<Rightarrow> (r, Store l')))"

text \<open>
  The handler object, with the part of tornado's \<open>RequestHandler\<close> that \<open>get\<close> touches:
  \<open>arguments\<close> is \<open>request.arguments\<close>, the decoded values of each parameter of the
  request in the order they were given; \<open>status_code\<close> and \<open>write_buffer\<close> are the response under construction (a chunk is
  the dictionary handed to \<open>finish\<close>, which tornado writes as JSON); \<open>sent\<close> is the status
  and body that went to the client when the response was finished. \<open>current_user\<close> is
  \<open>None\<close> when the request carries no authenticated user. Headers, and what tornado
  derives from them (conditional requests, compression), are outside the model.
\<close>

record 'nb TemplatesHandler =
  loader :: any_loader
  contents_manager :: "'nb ContentsManager"
  current_user :: "string option"
  arguments :: "string \<rightharpoonup> string list"
  status_code :: nat
  write_buffer :: "template list"
  finished :: bool
  sent :: "(nat \<times> template list) option"

text \<open>A handler as tornado creates it for a request, after \<open>initialize(loader)\<close>.\<close>

definition new_handler ::
  "any_loader \<Rightarrow> 'nb ContentsManager \<Rightarrow> string option \<Rightarrow> (string \<rightharpoonup> string list) \<Rightarrow>
   'nb TemplatesHandler" where
  "new_handler ldr cm user q =
     \<lparr>loader = ldr, contents_manager = cm, current_user = user, arguments = q,
      status_code = 200, write_buffer = [], finished = False, sent = None\<rparr>"

text \<open>
  \<open>get_argument(name, default)\<close> of tornado, with its default \<open>strip=True\<close>: every value
  of the parameter has its control characters (the class \<open>[\x00-\x08\x0e-\x1f]\<close>)
  replaced by a space and is then stripped of surrounding whitespace with \<open>str.strip()\<close>;
  the last value is returned, the default when there is none. A character of the model
  is a code point below 256, and \<open>is_space\<close> lists those for which \<open>str.isspace\<close> holds.
\<close>

definition remove_control_chars :: "string \<Rightarrow> string" where
  "remove_control_chars s =
     map (\<lambda>c. if (of_char c :: nat) \<le> 8 \<or> (14 \<le> (of_char c :: nat) \<and> (of_char c :: nat) \<le> 31)
              then CHR '' '' else c) s"

definition is_space :: "char \<Rightarrow> bool" where
  "is_space c \<longleftrightarrow>
     c \<in> set [CHR 0x09, CHR 0x0A, CHR 0x0B, CHR 0x0C, CHR 0x0D, CHR 0x1C, CHR 0x1D, CHR 0x1E,
              CHR 0x1F, CHR 0x20, CHR 0x85, CHR 0xA0]"

definition clean_argument :: "string \<Rightarrow> string" where
  "clean_argument v =
     rev (dropWhile is_space (rev (dropWhile is_space (remove_control_chars v))))"

definition get_argument :: "'nb TemplatesHandler \<Rightarrow> string \<Rightarrow> string \<Rightarrow> string" where
  "get_argument h arg dflt =
     (case arguments h arg of
        None \<Rightarrow> dflt
      | Some vs \<Rightarrow> if vs = [] then dflt else last (map clean_argument vs))"

definition set_status :: "'nb TemplatesHandler \<Rightarrow> nat \<Rightarrow> 'nb TemplatesHandler" where
  "set_status h code = h\<lparr>status_code := code\<rparr>"

text \<open>
  \<open>finish(chunk)\<close>: a second call raises; otherwise the chunk, if any, is written, the
  response goes out with the status the handler has at that moment, and the handler is
  finished.
\<close>

definition finish ::
  "'nb TemplatesHandler \<Rightarrow> template option \<Rightarrow> py_error + 'nb TemplatesHandler" where
  "finish h chunk =
     (if finished h then Inl RuntimeError
      else
        let h1 = (case chunk of
                    None \<Rightarrow> h
                  | Some c \<Rightarrow> h\<lparr>write_buffer := write_buffer h @ [c]\<rparr>)
        in Inr (h1\<lparr>sent := Some (status_code h1, write_buffer h1), finished := True\<rparr>))"

text \<open>
  \<open>@tornado.web.authenticated\<close> on a GET: without a current user the request is
  redirected to the login page (status 302, no body) and the method does not run.
\<close>

definition authenticated ::
  "('nb TemplatesHandler \<Rightarrow> py_error + 'nb TemplatesHandler) \<Rightarrow>
   'nb TemplatesHandler \<Rightarrow> py_error + 'nb TemplatesHandler" where
  "authenticated method h =
     (if current_user h = None then finish (set_status h 302) None else method h)"

text \<open>Lines 145-149, the body of \<open>TemplatesHandler.get\<close>.\<close>

definition TemplatesHandler_get ::
  "os_env \<Rightarrow> ('nb \<Rightarrow> py_error + string) \<Rightarrow> 'nb TemplatesHandler \<Rightarrow>
   py_error + 'nb TemplatesHandler" where
  "TemplatesHandler_get env json_dumps h =
     (let temp = get_argument h ''template'' [] in
      if temp \<noteq> [] then
        (case loader_get_template env json_dumps (loader h) temp (contents_manager h) of
           (Inl e, l') \<Rightarrow> Inl e
         | (Inr data, l') \<Rightarrow>
             (case finish (h\<lparr>loader := l'\<rparr>) (Some data) of
                Inl e \<Rightarrow> Inl e
              | Inr h' \<Rightarrow> Inr (set_status h' 404)))
      else Inr (set_status h 404))"

text \<open>
  What tornado does with the request: it runs the decorated method and, when the method
  returns without having finished the response, finishes it. An exception that leaves
  the method is answered by the framework's error response.
\<close>

definition serve ::
  "os_env \<Rightarrow> ('nb \<Rightarrow> py_error + string) \<Rightarrow> 'nb TemplatesHandler \<Rightarrow>
   py_error + 'nb TemplatesHandler" where
  "serve env json_dumps h =
     (case authenticated (TemplatesHandler_get env json_dumps) h of
        Inl e \<Rightarrow> Inl e
      | Inr h' \<Rightarrow> if finished h' then Inr h' else finish h' None)"

section \<open>Predicates used to state the properties\<close>

text \<open>
  \<open>listed_from env exts tdir data\<close>: the record \<open>data\<close> is the one \<open>_old\<close> builds for a file
  \<open>fn\<close> of a directory \<open>d\<close> that the walk of the root \<open>tdir\<close> yields, where \<open>d\<close> is not the
  root, holds no ignore file and has no \<open>.ipynb_checkpoints\<close> in its name, \<open>fn\<close> matches an
  allowed pattern, and the file that \<open>_old\<close> opens for it decodes to \<open>s\<close>.
\<close>

definition listed_from :: "os_env \<Rightarrow> string list \<Rightarrow> string \<Rightarrow> template \<Rightarrow> bool" where
  "listed_from env exts tdir data \<longleftrightarrow>
     (\<exists>d ds fs fn s.
        (d, ds, fs) \<in> set (walk env tdir) \<and> fn \<in> set fs \<and> d \<noteq> tdir \<and>
        TEMPLATES_IGNORE_FILE \<notin> set fs \<and> \<not> str_in ''.ipynb_checkpoints'' d \<and>
        list_ex (\<lambda>y. fnmatch env fn y) exts \<and>
        data = \<lparr>path = path_join d fn, name = path_join (str_replace d tdir []) fn,
                 dirname = str_replace d tdir [], filename = fn,
                 content = universal_newlines s\<rparr> \<and>
        file_utf8 env (path_join (abspath env (path_join (realpath env tdir) pardir))
          (path_join d fn)) = Inr s)"

text \<open>
  The records that \<open>_old\<close> builds at lines 76-82, in the order it builds them:
  \<open>read_records\<close> for the files of one root that are read, \<open>produced\<close> for all the roots.
  \<open>by_name records\<close> is the dictionary that stores each record under its \<open>name\<close>, a later
  record replacing an earlier one of the same name.
\<close>

definition read_records ::
  "os_env \<Rightarrow> string \<Rightarrow> (string \<times> string \<times> string) list \<Rightarrow> template list" where
  "read_records env parent files =
     concat (map
       (\<lambda>(f, dname, fname).
          case open_read env (path_join parent f) of
            Inl e \<Rightarrow> []
          | Inr c \<Rightarrow> [\<lparr>path = f, name = path_join dname fname, dirname = dname,
                       filename = fname, content = c\<rparr>])
       files)"

definition produced :: "os_env \<Rightarrow> string list \<Rightarrow> string list \<Rightarrow> template list" where
  "produced env exts dirs =
     concat (map
       (\<lambda>tdir. read_records env (abspath env (path_join (realpath env tdir) pardir))
          (collect_files env exts tdir))
       dirs)"

definition by_name :: "template list \<Rightarrow> index" where
  "by_name records = map_of (rev (map (\<lambda>data. (name data, data)) records))"



text \<open>
  The invariant of the \<open>while\<close> loop of the store-backed traversal: the pending and the
  asked directories are disjoint and reachable, the root is among them, the children of
  an asked directory are pending or asked, every pending or asked directory other than
  the root was listed by an asked one, and \<open>found\<close> holds the notebooks of the asked
  directories.
\<close>

definition scan_inv ::
  "'nb ContentsManager \<Rightarrow> string \<Rightarrow> string list \<Rightarrow> summary list \<Rightarrow> string list \<Rightarrow> bool" where
  "scan_inv cm root pending found asked \<longleftrightarrow>
     distinct pending \<and> distinct asked \<and> set pending \<inter> set asked = {} \<and>
     set pending \<union> set asked \<subseteq> reachable cm root \<and>
     root \<in> set pending \<union> set asked \<and>
     (\<forall>d \<in> set asked. set (subdirs cm d) \<subseteq> set pending \<union> set asked) \<and>
     (\<forall>c \<in> set pending \<union> set asked. c = root \<or> (\<exists>d \<in> set asked. c \<in> set (subdirs cm d))) \<and>
     found = concat (map (notebooks cm) asked)"



section \<open>Example environments\<close>

text \<open>
  A glob matcher for patterns made of literal characters, \<open>*\<close> and \<open>?\<close>; on such
  patterns it answers as \<open>fnmatch.fnmatch\<close> does on POSIX. It stands for \<open>fnmatch\<close> in the
  examples only.
\<close>

fun glob :: "string \<Rightarrow> string \<Rightarrow> bool" where
  "glob [] [] = True"
| "glob (c # cs) [] = False"
| "glob s (p # ps) =
     (if p = CHR ''*'' then glob s ps \<or> (case s of [] \<Rightarrow> False | _ # cs \<Rightarrow> glob cs (p # ps))
      else (case s of [] \<Rightarrow> False | c # cs \<Rightarrow> (p = CHR ''?'' \<or> p = c) \<and> glob cs ps))"

text \<open>
  A root \<open>t\<close> under \<open>/w\<close>: \<open>t/sub\<close> holds a notebook with a Windows line ending and a
  checkpoint directory, \<open>t/ign\<close> holds the ignore file, its subdirectory \<open>t/ign/deep\<close> a
  notebook, and \<open>t/empty\<close> holds no notebook.
\<close>

definition demo_env :: os_env where
  "demo_env = \<lparr>
     walk = (\<lambda>top. if top = ''t'' then
        [(''t'', [''sub'', ''ign'', ''empty''], [''top.ipynb'']),
         (''t/sub'', [''.ipynb_checkpoints''], [''a.ipynb'', ''notes.txt'']),
         (''t/sub/.ipynb_checkpoints'', [], [''a-checkpoint.ipynb'']),
         (''t/ign'', [''deep''], [''.jupyterlab_templates_ignore'', ''x.ipynb'']),
         (''t/ign/deep'', [], [''d.ipynb'']),
         (''t/empty'', [], [''readme.txt''])] else []),
     realpath = (\<lambda>p. if p = ''t'' then ''/w/t'' else p),
     abspath = (\<lambda>p. if p = ''/w/t/..'' then ''/w'' else p),
     file_utf8 = (\<lambda>p. if p = ''/w/t/sub/a.ipynb'' then Inr [CHR ''a'', CHR 0x0D, CHR 0x0A, CHR ''b'']
                     else if p = ''/w/t/ign/deep/d.ipynb'' then Inr ''{}''
                     else Inl FileNotFoundError),
     fnmatch = glob\<rparr>"

definition demo_loader :: TemplatesLoader where
  "demo_loader = TemplatesLoader_init [''t''] None None"

definition demo_a :: template where
  "demo_a = \<lparr>path = ''t/sub/a.ipynb'', name = ''/sub/a.ipynb'', dirname = ''/sub'',
             filename = ''a.ipynb'', content = [CHR ''a'', CHR 0x0A, CHR ''b'']\<rparr>"

definition demo_d :: template where
  "demo_d = \<lparr>path = ''t/ign/deep/d.ipynb'', name = ''/ign/deep/d.ipynb'', dirname = ''/ign/deep'',
             filename = ''d.ipynb'', content = ''{}''\<rparr>"

definition demo_templates :: catalog where
  "demo_templates = [''sub'' \<mapsto> [Summary ''/sub/a.ipynb''],
                     ''ign/deep'' \<mapsto> [Summary ''/ign/deep/d.ipynb'']]"

definition demo_index :: index where
  "demo_index = [''/sub/a.ipynb'' \<mapsto> demo_a, ''/ign/deep/d.ipynb'' \<mapsto> demo_d]"

text \<open>
  Two roots \<open>t\<close> and \<open>q\<close> that each hold \<open>sub/a.ipynb\<close>, and a root whose directory name
  contains the control character U+0001.
\<close>

definition two_roots_env :: os_env where
  "two_roots_env = \<lparr>
     walk = (\<lambda>top.
        if top = ''t'' then [(''t'', [''sub''], []), (''t/sub'', [], [''a.ipynb''])]
        else if top = ''q'' then [(''q'', [''sub''], []), (''q/sub'', [], [''a.ipynb''])]
        else []),
     realpath = (\<lambda>p. if p = ''t'' then ''/w/t'' else if p = ''q'' then ''/w/q'' else p),
     abspath = (\<lambda>p. if p = ''/w/t/..'' \<or> p = ''/w/q/..'' then ''/w'' else p),
     file_utf8 = (\<lambda>p. if p = ''/w/t/sub/a.ipynb'' then Inr ''T''
                     else if p = ''/w/q/sub/a.ipynb'' then Inr ''Q''
                     else Inl FileNotFoundError),
     fnmatch = glob\<rparr>"

definition two_roots_loader :: TemplatesLoader where
  "two_roots_loader = TemplatesLoader_init [''t'', ''q''] None None"


text \<open>A directory with a file named \<open>.ipynb_checkpoints\<close>, and a loader that allows every name.\<close>

definition dotfile_env :: os_env where
  "dotfile_env = \<lparr>
     walk = (\<lambda>top. if top = ''t'' then
        [(''t'', [''sub''], []), (''t/sub'', [], [''.ipynb_checkpoints''])] else []),
     realpath = (\<lambda>p. if p = ''t'' then ''/w/t'' else p),
     abspath = (\<lambda>p. if p = ''/w/t/..'' then ''/w'' else p),
     file_utf8 = (\<lambda>p. if p = ''/w/t/sub/.ipynb_checkpoints'' then Inr ''{}''
                     else Inl FileNotFoundError),
     fnmatch = glob\<rparr>"

definition dotfile_loader :: TemplatesLoader where
  "dotfile_loader = TemplatesLoader_init [''t''] (Some [''*'']) None"

text \<open>A store that refuses every call, a serialiser that refuses every value, and a small store.\<close>

definition no_store :: "unit ContentsManager" where
  "no_store = \<lparr>get_directory = (\<lambda>p. Inl StoreError), get_notebook = (\<lambda>p. Inl StoreError)\<rparr>"

definition no_dumps :: "unit \<Rightarrow> py_error + string" where
  "no_dumps = (\<lambda>nb. Inl TypeError)"

definition demo_store :: "unit ContentsManager" where
  "demo_store = \<lparr>
     get_directory = (\<lambda>p.
        if p = ''r'' then Inr [Child ''directory'' ''r/a'', Child ''notebook'' ''r/n.ipynb'',
                              Child ''file'' ''r/x.txt'']
        else if p = ''r/a'' then Inr [Child ''notebook'' ''r/a/m.ipynb'']
        else Inl StoreError),
     get_notebook = (\<lambda>p. Inl StoreError)\<rparr>"

definition demo_store_loader :: ContentsManagerTemplatesLoader where
  "demo_store_loader = ContentsManagerTemplatesLoader_init [(''g'', ''r'')] None None"



section \<open>The local enumerator: invariants of the two loops\<close>

lemma add_template_simp:
  "add_template (f, d, fn) c (t, i) =
     (t(str_strip d sep \<mapsto> (case t (str_strip d sep) of None \<Rightarrow> [] | Some l \<Rightarrow> l) @
          [Summary (path_join d fn)]),
      i(path_join d fn \<mapsto>
          \<lparr>path = f, name = path_join d fn, dirname = d, filename = fn, content = c\<rparr>))"
  by (auto simp: add_template_def Let_def fun_eq_iff)

lemma push_templates_inv:
  assumes "push_templates env parent files acc = Inr acc'"
    and "P acc"
    and "\<And>e c a. e \<in> set files \<Longrightarrow> open_read env (path_join parent (fst e)) = Inr c \<Longrightarrow>
           P a \<Longrightarrow> P (add_template e c a)"
  shows "P acc'"
  using assms
proof (induction files arbitrary: acc)
  case Nil
  then show ?case by simp
next
  case (Cons e rest)
  show ?case
  proof (cases "open_read env (path_join parent (fst e))")
    case (Inl err)
    with Cons.prems(1) have "push_templates env parent rest acc = Inr acc'"
      by (simp split: if_splits)
    then show ?thesis
      using Cons.IH[of acc] Cons.prems(2,3) by simp
  next
    case (Inr c)
    with Cons.prems(1) have "push_templates env parent rest (add_template e c acc) = Inr acc'"
      by simp
    moreover have "P (add_template e c acc)"
      using Cons.prems(2,3) Inr by simp
    ultimately show ?thesis
      using Cons.IH[of "add_template e c acc"] Cons.prems(3) by simp
  qed
qed

lemma old_loop_inv:
  assumes "old_loop env exts dirs acc = Inr acc'"
    and "P acc"
    and "\<And>tdir e c a. tdir \<in> set dirs \<Longrightarrow> e \<in> set (collect_files env exts tdir) \<Longrightarrow>
           open_read env (path_join (abspath env (path_join (realpath env tdir) pardir)) (fst e)) = Inr c \<Longrightarrow>
           P a \<Longrightarrow> P (add_template e c a)"
  shows "P acc'"
  using assms
proof (induction dirs arbitrary: acc)
  case Nil
  then show ?case by simp
next
  case (Cons tdir dirs)
  let ?parent = "abspath env (path_join (realpath env tdir) pardir)"
  from Cons.prems(1) obtain mid where
    mid: "push_templates env ?parent (collect_files env exts tdir) acc = Inr mid"
    and rest: "old_loop env exts dirs mid = Inr acc'"
    by (auto simp: Let_def split: sum.splits)
  have "P mid"
  proof (rule push_templates_inv[where P = P, OF mid Cons.prems(2)])
    fix e c a
    assume "e \<in> set (collect_files env exts tdir)"
      and "open_read env (path_join ?parent (fst e)) = Inr c" and "P a"
    then show "P (add_template e c a)"
      using Cons.prems(3)[of tdir e c a] by simp
  qed
  then show ?case
  proof (rule Cons.IH[OF rest])
    fix d e c a
    assume "d \<in> set dirs" and "e \<in> set (collect_files env exts d)"
      and "open_read env (path_join (abspath env (path_join (realpath env d) pardir)) (fst e)) = Inr c"
      and "P a"
    then show "P (add_template e c a)"
      using Cons.prems(3)[of d e c a] by simp
  qed
qed

subsection \<open>Keys, groups and names\<close>

lemma add_template_key:
  assumes "\<forall>k r. snd a k = Some r \<longrightarrow> name r = k"
  shows "\<forall>k r. snd (add_template e c a) k = Some r \<longrightarrow> name r = k"
  using assms by (cases e; cases a) (auto simp: add_template_simp)

lemma add_template_nonempty:
  assumes "\<forall>g l. fst a g = Some l \<longrightarrow> l \<noteq> []"
  shows "\<forall>g l. fst (add_template e c a) g = Some l \<longrightarrow> l \<noteq> []"
  using assms by (cases e; cases a) (auto simp: add_template_simp)

lemma catalog_names_upd:
  "catalog_names (t(g \<mapsto> (case t g of None \<Rightarrow> [] | Some l \<Rightarrow> l) @ [Summary n])) =
   insert n (catalog_names t)"
proof (cases "t g")
  case None
  then show ?thesis
    by (auto simp: catalog_names_def split: if_splits) (metis option.distinct(1))
next
  case (Some l0)
  then show ?thesis
    by (auto simp: catalog_names_def split: if_splits) (metis option.inject)
qed

lemma catalog_namesI:
  "templates g = Some l \<Longrightarrow> Summary n \<in> set l \<Longrightarrow> n \<in> catalog_names templates"
  by (auto simp: catalog_names_def)

lemma add_template_names:
  assumes "catalog_names (fst a) = dom (snd a)"
  shows "catalog_names (fst (add_template e c a)) = dom (snd (add_template e c a))"
  using assms by (cases e; cases a) (simp add: add_template_simp catalog_names_upd)

lemma old_index_key:
  assumes "old_loop env exts dirs (Map.empty, Map.empty) = Inr (t, i)" and "i k = Some r"
  shows "name r = k"
proof -
  have "\<forall>k r. snd (t, i) k = Some r \<longrightarrow> name r = k"
    by (rule old_loop_inv[where P = "\<lambda>a. \<forall>k r. snd a k = Some r \<longrightarrow> name r = k", OF assms(1)])
       (simp, rule add_template_key)
  with assms(2) show ?thesis by simp
qed

lemma old_groups_nonempty:
  assumes "old_loop env exts dirs (Map.empty, Map.empty) = Inr (t, i)" and "t g = Some l"
  shows "l \<noteq> []"
proof -
  have "\<forall>g l. fst (t, i) g = Some l \<longrightarrow> l \<noteq> []"
    by (rule old_loop_inv[where P = "\<lambda>a. \<forall>g l. fst a g = Some l \<longrightarrow> l \<noteq> []", OF assms(1)])
       (simp, rule add_template_nonempty)
  with assms(2) show ?thesis by simp
qed

lemma old_names_dom:
  assumes "old_loop env exts dirs (Map.empty, Map.empty) = Inr (t, i)"
  shows "catalog_names t = dom i"
proof -
  have "catalog_names (fst (t, i)) = dom (snd (t, i))"
    by (rule old_loop_inv[where P = "\<lambda>a. catalog_names (fst a) = dom (snd a)", OF assms(1)])
       (simp add: catalog_names_def, rule add_template_names)
  then show ?thesis by simp
qed

subsection \<open>Where a record comes from\<close>

lemma collect_filesD:
  assumes "e \<in> set (collect_files env exts tdir)"
  shows "\<exists>d ds fs fn.
           (d, ds, fs) \<in> set (walk env tdir) \<and> fn \<in> set fs \<and> d \<noteq> tdir \<and>
           TEMPLATES_IGNORE_FILE \<notin> set fs \<and> \<not> str_in ''.ipynb_checkpoints'' d \<and>
           list_ex (\<lambda>y. fnmatch env fn y) exts \<and>
           e = (path_join d fn, str_replace d tdir [], fn)"
  using assms
  by (fastforce simp: collect_files_def walk_step_def split: if_splits)


lemma listed_fromI:
  assumes "e \<in> set (collect_files env exts tdir)"
    and "open_read env (path_join (abspath env (path_join (realpath env tdir) pardir)) (fst e)) = Inr c"
  shows "listed_from env exts tdir
           \<lparr>path = fst e, name = path_join (fst (snd e)) (snd (snd e)), dirname = fst (snd e),
            filename = snd (snd e), content = c\<rparr>"
proof -
  from collect_filesD[OF assms(1)] obtain d ds fs fn where
    w: "(d, ds, fs) \<in> set (walk env tdir)" "fn \<in> set fs" "d \<noteq> tdir"
       "TEMPLATES_IGNORE_FILE \<notin> set fs" "\<not> str_in ''.ipynb_checkpoints'' d"
       "list_ex (\<lambda>y. fnmatch env fn y) exts"
    and e: "e = (path_join d fn, str_replace d tdir [], fn)"
    by blast
  from assms(2) e obtain s where
    s: "file_utf8 env (path_join (abspath env (path_join (realpath env tdir) pardir))
          (path_join d fn)) = Inr s" "c = universal_newlines s"
    by (auto simp: open_read_def split: sum.splits)
  show ?thesis
    unfolding listed_from_def using w e s by auto
qed

lemma listed_from_content:
  assumes "listed_from env exts tdir data"
  shows "\<exists>s. file_utf8 env (path_join (abspath env (path_join (realpath env tdir) pardir))
           (path data)) = Inr s \<and> content data = universal_newlines s"
  using assms unfolding listed_from_def by auto

lemma add_template_listed:
  assumes "\<forall>k r. snd a k = Some r \<longrightarrow> (\<exists>tdir \<in> D. listed_from env exts tdir r)"
    and "tdir \<in> D" and "e \<in> set (collect_files env exts tdir)"
    and "open_read env (path_join (abspath env (path_join (realpath env tdir) pardir)) (fst e)) = Inr c"
  shows "\<forall>k r. snd (add_template e c a) k = Some r \<longrightarrow> (\<exists>tdir \<in> D. listed_from env exts tdir r)"
  using assms(1,2) listed_fromI[OF assms(3,4)]
  by (cases e; cases a) (auto simp: add_template_simp)

lemma old_listed:
  assumes "old_loop env exts dirs (Map.empty, Map.empty) = Inr (t, i)" and "i k = Some r"
  shows "\<exists>tdir \<in> set dirs. listed_from env exts tdir r"
proof -
  have "\<forall>k r. snd (t, i) k = Some r \<longrightarrow> (\<exists>tdir \<in> set dirs. listed_from env exts tdir r)"
    by (rule old_loop_inv[where P = "\<lambda>a. \<forall>k r. snd a k = Some r \<longrightarrow>
          (\<exists>tdir \<in> set dirs. listed_from env exts tdir r)", OF assms(1)])
       (simp, rule add_template_listed)
  with assms(2) show ?thesis by simp
qed

lemma add_template_group_listed:
  assumes "\<forall>g l s. fst a g = Some l \<and> s \<in> set l \<longrightarrow>
             (\<exists>tdir \<in> D. \<exists>data. listed_from env exts tdir data \<and> s = Summary (name data) \<and>
                g = str_strip (dirname data) sep)"
    and "tdir \<in> D" and "e \<in> set (collect_files env exts tdir)"
    and "open_read env (path_join (abspath env (path_join (realpath env tdir) pardir)) (fst e)) = Inr c"
  shows "\<forall>g l s. fst (add_template e c a) g = Some l \<and> s \<in> set l \<longrightarrow>
             (\<exists>tdir \<in> D. \<exists>data. listed_from env exts tdir data \<and> s = Summary (name data) \<and>
                g = str_strip (dirname data) sep)"
proof (intro allI impI)
  fix g l s
  assume h: "fst (add_template e c a) g = Some l \<and> s \<in> set l"
  obtain f d fn where e: "e = (f, d, fn)" by (cases e)
  obtain t i where a: "a = (t, i)" by (cases a)
  let ?data = "\<lparr>path = f, name = path_join d fn, dirname = d, filename = fn, content = c\<rparr>"
  have new: "listed_from env exts tdir ?data"
    using listed_fromI[OF assms(3,4)] e by simp
  show "\<exists>tdir \<in> D. \<exists>data. listed_from env exts tdir data \<and> s = Summary (name data) \<and>
          g = str_strip (dirname data) sep"
  proof (cases "g = str_strip d sep \<and> s = Summary (path_join d fn)")
    case True
    then show ?thesis
      using new assms(2) by (intro bexI[of _ tdir] exI[of _ ?data]) simp_all
  next
    case False
    with h e a have "\<exists>l0. t g = Some l0 \<and> s \<in> set l0"
      by (auto simp: add_template_simp split: if_splits option.splits)
    then show ?thesis
      using assms(1) a by auto
  qed
qed

lemma old_group_listed:
  assumes "old_loop env exts dirs (Map.empty, Map.empty) = Inr (t, i)"
    and "t g = Some l" and "s \<in> set l"
  shows "\<exists>tdir \<in> set dirs. \<exists>data. listed_from env exts tdir data \<and> s = Summary (name data) \<and>
           g = str_strip (dirname data) sep"
proof -
  have "\<forall>g l s. fst (t, i) g = Some l \<and> s \<in> set l \<longrightarrow>
          (\<exists>tdir \<in> set dirs. \<exists>data. listed_from env exts tdir data \<and> s = Summary (name data) \<and>
             g = str_strip (dirname data) sep)"
    by (rule old_loop_inv[where P = "\<lambda>a. \<forall>g l s. fst a g = Some l \<and> s \<in> set l \<longrightarrow>
          (\<exists>tdir \<in> set dirs. \<exists>data. listed_from env exts tdir data \<and> s = Summary (name data) \<and>
             g = str_strip (dirname data) sep)", OF assms(1)])
       (simp, rule add_template_group_listed)
  with assms(2,3) show ?thesis by auto
qed

subsection \<open>What was read is listed\<close>










subsection \<open>The index as a function of the records produced\<close>

lemma by_name_Nil: "by_name [] = Map.empty"
  by (simp add: by_name_def)

lemma by_name_append: "by_name (xs @ ys) = by_name xs ++ by_name ys"
  by (simp add: by_name_def)

lemma by_name_single: "m ++ by_name [data] = m(name data \<mapsto> data)"
  by (simp add: by_name_def)

lemma by_name_Cons: "m ++ by_name (data # rest) = m(name data \<mapsto> data) ++ by_name rest"
  using by_name_append[of "[data]" rest] by (simp add: by_name_single)

lemma by_name_SomeD: "by_name xs k = Some data \<Longrightarrow> name data = k \<and> data \<in> set xs"
  unfolding by_name_def by (auto dest!: map_of_SomeD)

lemma by_name_dom: "data \<in> set xs \<Longrightarrow> \<exists>data'. by_name xs (name data) = Some data'"
proof -
  assume "data \<in> set xs"
  then have "name data \<in> fst ` set (rev (map (\<lambda>data. (name data, data)) xs))"
    by force
  then show ?thesis
    unfolding by_name_def by (metis domD dom_map_of_conv_image_fst)
qed

lemma by_name_last:
  assumes "name data \<notin> name ` set ys"
  shows "by_name (xs @ data # ys) (name data) = Some data"
proof -
  have "by_name ys (name data) = None"
    using assms unfolding by_name_def by (simp add: map_of_eq_None_iff image_image)
  then show ?thesis
    using by_name_append[of xs "data # ys"] by_name_append[of "[data]" ys]
    by (simp add: map_add_def by_name_def)
qed

lemma add_template_index:
  "snd (add_template (f, d, fn) c (t, i)) =
     i(path_join d fn \<mapsto> \<lparr>path = f, name = path_join d fn, dirname = d, filename = fn, content = c\<rparr>)"
  by (simp add: add_template_simp)

lemma push_templates_index:
  assumes "push_templates env parent files acc = Inr acc'"
  shows "snd acc' = snd acc ++ by_name (read_records env parent files)"
  using assms
proof (induction files arbitrary: acc)
  case Nil
  then show ?case by (simp add: read_records_def by_name_Nil)
next
  case (Cons e rest)
  obtain f d fn where e: "e = (f, d, fn)" by (cases e)
  obtain t i where acc: "acc = (t, i)" by (cases acc)
  show ?case
  proof (cases "open_read env (path_join parent f)")
    case (Inl err)
    with Cons.prems e have "push_templates env parent rest acc = Inr acc'"
      by (simp split: if_splits)
    from Cons.IH[OF this] Inl e show ?thesis
      by (simp add: read_records_def)
  next
    case (Inr c)
    let ?data = "\<lparr>path = f, name = path_join d fn, dirname = d, filename = fn, content = c\<rparr>"
    from Inr Cons.prems e have "push_templates env parent rest (add_template e c acc) = Inr acc'"
      by simp
    from Cons.IH[OF this] have 1: "snd acc' = snd (add_template e c acc) ++ by_name (read_records env parent rest)" .
    have 2: "snd (add_template e c acc) = i(name ?data \<mapsto> ?data)"
      using e acc by (simp add: add_template_index)
    have 3: "read_records env parent (e # rest) = ?data # read_records env parent rest"
      using Inr e by (simp add: read_records_def)
    have 4: "snd acc = i" using acc by simp
    show ?thesis
      unfolding 1 2 3 4 by (rule by_name_Cons[symmetric])
  qed
qed

lemma old_loop_index:
  assumes "old_loop env exts dirs acc = Inr acc'"
  shows "snd acc' = snd acc ++ by_name (produced env exts dirs)"
  using assms
proof (induction dirs arbitrary: acc)
  case Nil
  then show ?case by (simp add: produced_def by_name_Nil)
next
  case (Cons tdir dirs)
  let ?parent = "abspath env (path_join (realpath env tdir) pardir)"
  from Cons.prems obtain mid where
    mid: "push_templates env ?parent (collect_files env exts tdir) acc = Inr mid"
    and rest: "old_loop env exts dirs mid = Inr acc'"
    by (auto simp: Let_def split: sum.splits)
  have "produced env exts (tdir # dirs) =
      read_records env ?parent (collect_files env exts tdir) @ produced env exts dirs"
    by (simp add: produced_def)
  then show ?case
    using push_templates_index[OF mid] Cons.IH[OF rest] by (simp add: by_name_append)
qed

subsection \<open>The methods\<close>

lemma get_templates_old:
  "fst (TemplatesLoader_get_templates env self cm) = Inr templates \<Longrightarrow>
   \<exists>i. fst (TemplatesLoader_old env self cm) = Inr (templates, i)"
  by (auto simp: TemplatesLoader_get_templates_def split: prod.splits sum.splits)

lemma old_loopI:
  "fst (TemplatesLoader_old env self cm) = Inr (t, i) \<Longrightarrow>
   old_loop env (allowed_extensions self) (template_dirs self) (Map.empty, Map.empty) = Inr (t, i)"
  by (simp add: TemplatesLoader_old_def)

lemma get_template_found:
  "fst (TemplatesLoader_old env self cm) = Inr (t, i) \<Longrightarrow> i k = Some data \<Longrightarrow>
   fst (TemplatesLoader_get_template env self k cm') = Inr data"
  by (simp add: TemplatesLoader_get_template_def TemplatesLoader_old_def)

lemma get_template_missing:
  "fst (TemplatesLoader_old env self cm) = Inr (t, i) \<Longrightarrow> i k = None \<Longrightarrow>
   fst (TemplatesLoader_get_template env self k cm') = Inl (KeyError k)"
  by (simp add: TemplatesLoader_get_template_def TemplatesLoader_old_def)

lemma get_template_listed:
  assumes "fst (TemplatesLoader_get_templates env self cm) = Inr templates"
    and "p \<in> catalog_names templates"
  shows "\<exists>data tdir. fst (TemplatesLoader_get_template env self p cm) = Inr data \<and>
           name data = p \<and> tdir \<in> set (template_dirs self) \<and>
           listed_from env (allowed_extensions self) tdir data"
proof -
  from get_templates_old[OF assms(1)] obtain i where
    old: "fst (TemplatesLoader_old env self cm) = Inr (templates, i)" ..
  from assms(2) old_names_dom[OF old_loopI[OF old]] obtain data where
    d: "i p = Some data" by auto
  have "fst (TemplatesLoader_get_template env self p cm) = Inr data"
    by (rule get_template_found[OF old d])
  moreover have "name data = p"
    by (rule old_index_key[OF old_loopI[OF old] d])
  moreover obtain tdir where "tdir \<in> set (template_dirs self)"
    "listed_from env (allowed_extensions self) tdir data"
    using old_listed[OF old_loopI[OF old] d] by blast
  ultimately show ?thesis by blast
qed

lemma old_index_by_name:
  assumes "fst (TemplatesLoader_old env self cm) = Inr (templates, template_by_path)"
  shows "template_by_path = by_name (produced env (allowed_extensions self) (template_dirs self))"
  using old_loop_index[OF old_loopI[OF assms]] by simp

subsection \<open>The example tree\<close>

lemma demo_collect:
  "collect_files demo_env [''*.ipynb''] ''t'' =
     [(''t/sub/a.ipynb'', ''/sub'', ''a.ipynb''), (''t/ign/deep/d.ipynb'', ''/ign/deep'', ''d.ipynb'')]"
  by (simp add: collect_files_def walk_step_def demo_env_def TEMPLATES_IGNORE_FILE_def
      path_join_def sep_def str_replace_def)

lemma demo_old:
  "TemplatesLoader_old demo_env demo_loader cm = (Inr (demo_templates, demo_index), demo_loader)"
proof -
  have exts: "allowed_extensions demo_loader = [''*.ipynb'']" "template_dirs demo_loader = [''t'']"
    by (simp_all add: demo_loader_def TemplatesLoader_init_def py_or_def)
  have parent: "abspath demo_env (path_join (realpath demo_env ''t'') pardir) = ''/w''"
    by (simp add: demo_env_def path_join_def pardir_def sep_def)
  have r1: "open_read demo_env (path_join ''/w'' ''t/sub/a.ipynb'') = Inr [CHR ''a'', CHR 0x0A, CHR ''b'']"
    by (simp add: open_read_def demo_env_def path_join_def sep_def)
  have r2: "open_read demo_env (path_join ''/w'' ''t/ign/deep/d.ipynb'') = Inr ''{}''"
    by (simp add: open_read_def demo_env_def path_join_def sep_def)
  have j1: "path_join ''/sub'' ''a.ipynb'' = ''/sub/a.ipynb''"
    and j2: "path_join ''/ign/deep'' ''d.ipynb'' = ''/ign/deep/d.ipynb''"
    and s1: "str_strip ''/sub'' sep = ''sub''" and s2: "str_strip ''/ign/deep'' sep = ''ign/deep''"
    by (simp_all add: path_join_def sep_def str_strip_def)
  show ?thesis
    unfolding TemplatesLoader_old_def exts
    by (simp add: demo_collect parent r1 r2 add_template_simp j1 j2 s1 s2
        demo_templates_def demo_index_def demo_a_def demo_d_def)
qed



lemma demo_names: "''/sub/a.ipynb'' \<in> catalog_names demo_templates"
  by (rule catalog_namesI[of _ "''sub''" "[Summary ''/sub/a.ipynb'']"])
     (simp_all add: demo_templates_def)

lemma demo_produced:
  "produced demo_env (allowed_extensions demo_loader) (template_dirs demo_loader) = [demo_a, demo_d]"
proof -
  have l: "allowed_extensions demo_loader = [''*.ipynb'']" "template_dirs demo_loader = [''t'']"
    by (simp_all add: demo_loader_def TemplatesLoader_init_def py_or_def)
  have parent: "abspath demo_env (path_join (realpath demo_env ''t'') pardir) = ''/w''"
    by (simp add: demo_env_def path_join_def pardir_def sep_def)
  have r1: "open_read demo_env (path_join ''/w'' ''t/sub/a.ipynb'') = Inr [CHR ''a'', CHR 0x0A, CHR ''b'']"
    by (simp add: open_read_def demo_env_def path_join_def sep_def)
  have r2: "open_read demo_env (path_join ''/w'' ''t/ign/deep/d.ipynb'') = Inr ''{}''"
    by (simp add: open_read_def demo_env_def path_join_def sep_def)
  have j: "path_join ''/sub'' ''a.ipynb'' = ''/sub/a.ipynb''"
    "path_join ''/ign/deep'' ''d.ipynb'' = ''/ign/deep/d.ipynb''"
    by (simp_all add: path_join_def sep_def)
  show ?thesis
    unfolding l by (simp add: produced_def read_records_def demo_collect parent r1 r2 j
        demo_a_def demo_d_def)
qed

lemma two_roots_collect:
  "collect_files two_roots_env [''*.ipynb''] ''t'' = [(''t/sub/a.ipynb'', ''/sub'', ''a.ipynb'')]"
  "collect_files two_roots_env [''*.ipynb''] ''q'' = [(''q/sub/a.ipynb'', ''/sub'', ''a.ipynb'')]"
  by (simp_all add: collect_files_def walk_step_def two_roots_env_def TEMPLATES_IGNORE_FILE_def
      path_join_def sep_def str_replace_def)

lemma two_roots_read:
  "abspath two_roots_env (path_join (realpath two_roots_env ''t'') pardir) = ''/w''"
  "abspath two_roots_env (path_join (realpath two_roots_env ''q'') pardir) = ''/w''"
  "open_read two_roots_env (path_join ''/w'' ''t/sub/a.ipynb'') = Inr ''T''"
  "open_read two_roots_env (path_join ''/w'' ''q/sub/a.ipynb'') = Inr ''Q''"
  "path_join ''/sub'' ''a.ipynb'' = ''/sub/a.ipynb''"
  "str_strip ''/sub'' sep = ''sub''"
  by (simp_all add: two_roots_env_def open_read_def path_join_def pardir_def sep_def str_strip_def)

lemma two_roots_loader_fields:
  "allowed_extensions two_roots_loader = [''*.ipynb'']" "template_dirs two_roots_loader = [''t'', ''q'']"
  by (simp_all add: two_roots_loader_def TemplatesLoader_init_def py_or_def)

section \<open>Properties of the local enumerator\<close>

text \<open>
  C3, as the code has it: the lookup index is keyed by the \<open>name\<close> field (the
  root-relative name that the catalog lists), not by \<open>path\<close>, and it maps each name to the
  last record the walk produced with that name. So a record held by the index is returned
  by \<open>get_template\<close> called with its \<open>name\<close>; for every record the walk produces,
  \<open>get_template\<close> called with its \<open>name\<close> returns a produced record of that name; and it
  returns that very record when no later record has the same name.
\<close>

theorem index_key_is_name:
  assumes "fst (TemplatesLoader_old env self cm) = Inr (templates, template_by_path)"
  shows "template_by_path = by_name (produced env (allowed_extensions self) (template_dirs self)) \<and>
         (\<forall>k data. template_by_path k = Some data \<longrightarrow>
            name data = k \<and>
            data \<in> set (produced env (allowed_extensions self) (template_dirs self)) \<and>
            fst (TemplatesLoader_get_template env self k cm) = Inr data) \<and>
         (\<forall>data \<in> set (produced env (allowed_extensions self) (template_dirs self)).
            \<exists>data'. fst (TemplatesLoader_get_template env self (name data) cm) = Inr data' \<and>
              name data' = name data \<and>
              data' \<in> set (produced env (allowed_extensions self) (template_dirs self))) \<and>
         (\<forall>xs data ys.
            produced env (allowed_extensions self) (template_dirs self) = xs @ data # ys \<and>
            name data \<notin> name ` set ys \<longrightarrow>
            fst (TemplatesLoader_get_template env self (name data) cm) = Inr data)"
proof -
  let ?P = "produced env (allowed_extensions self) (template_dirs self)"
  have idx: "template_by_path = by_name ?P"
    by (rule old_index_by_name[OF assms])
  have stored: "name data = k \<and> data \<in> set ?P \<and>
      fst (TemplatesLoader_get_template env self k cm) = Inr data"
    if "template_by_path k = Some data" for k data
    using that by_name_SomeD[of ?P k data] get_template_found[OF assms that] idx by simp
  have made: "\<exists>data'. fst (TemplatesLoader_get_template env self (name data) cm) = Inr data' \<and>
      name data' = name data \<and> data' \<in> set ?P" if "data \<in> set ?P" for data
  proof -
    from by_name_dom[OF that] idx obtain data' where "template_by_path (name data) = Some data'"
      by auto
    with stored show ?thesis by blast
  qed
  have latest: "fst (TemplatesLoader_get_template env self (name data) cm) = Inr data"
    if "?P = xs @ data # ys \<and> name data \<notin> name ` set ys" for xs data ys
  proof -
    from that have "template_by_path (name data) = Some data"
      using by_name_last[of data ys xs] idx by simp
    then show ?thesis by (rule get_template_found[OF assms])
  qed
  show ?thesis
    using idx stored made latest by blast
qed

theorem index_key_is_name_witness:
  "fst (TemplatesLoader_old demo_env demo_loader ()) = Inr (demo_templates, demo_index) \<and>
   produced demo_env (allowed_extensions demo_loader) (template_dirs demo_loader) =
     [demo_a, demo_d] \<and>
   demo_index = by_name [demo_a, demo_d] \<and>
   name demo_a = ''/sub/a.ipynb'' \<and>
   fst (TemplatesLoader_get_template demo_env demo_loader ''/sub/a.ipynb'' ()) = Inr demo_a"
proof -
  have h1: "fst (TemplatesLoader_old demo_env demo_loader ()) = Inr (demo_templates, demo_index)"
    by (simp add: demo_old)
  have n: "name demo_a = ''/sub/a.ipynb''"
    by (simp add: demo_a_def)
  have "demo_index ''/sub/a.ipynb'' = Some demo_a"
    by (simp add: demo_index_def)
  with index_key_is_name[OF h1] have
    "demo_index = by_name (produced demo_env (allowed_extensions demo_loader) (template_dirs demo_loader))"
    "fst (TemplatesLoader_get_template demo_env demo_loader ''/sub/a.ipynb'' ()) = Inr demo_a"
    by blast+
  then show ?thesis
    using h1 n by (simp add: demo_produced)
qed

text \<open>
  C3 as stated fails: in the example tree the record of \<open>t/sub/a.ipynb\<close> is stored under
  \<open>/sub/a.ipynb\<close>, its \<open>path\<close> field is \<open>t/sub/a.ipynb\<close>, and \<open>get_template\<close> called with
  the \<open>path\<close> field raises \<open>KeyError\<close>. With the two roots \<open>t\<close> and \<open>q\<close> the walk produces a
  record for \<open>t/sub/a.ipynb\<close> and one for \<open>q/sub/a.ipynb\<close>, both named \<open>/sub/a.ipynb\<close>, and
  that key retrieves the content of the second.
\<close>

theorem path_field_is_not_the_key:
  "fst (TemplatesLoader_get_template demo_env demo_loader ''/sub/a.ipynb'' ()) =
     Inr \<lparr>path = ''t/sub/a.ipynb'', name = ''/sub/a.ipynb'', dirname = ''/sub'',
          filename = ''a.ipynb'', content = [CHR ''a'', CHR 0x0A, CHR ''b'']\<rparr> \<and>
   fst (TemplatesLoader_get_template demo_env demo_loader ''t/sub/a.ipynb'' ()) =
     Inl (KeyError ''t/sub/a.ipynb'') \<and>
   produced two_roots_env (allowed_extensions two_roots_loader) (template_dirs two_roots_loader) =
     [\<lparr>path = ''t/sub/a.ipynb'', name = ''/sub/a.ipynb'', dirname = ''/sub'',
       filename = ''a.ipynb'', content = ''T''\<rparr>,
      \<lparr>path = ''q/sub/a.ipynb'', name = ''/sub/a.ipynb'', dirname = ''/sub'',
       filename = ''a.ipynb'', content = ''Q''\<rparr>] \<and>
   fst (TemplatesLoader_get_template two_roots_env two_roots_loader ''/sub/a.ipynb'' ()) =
     Inr \<lparr>path = ''q/sub/a.ipynb'', name = ''/sub/a.ipynb'', dirname = ''/sub'',
          filename = ''a.ipynb'', content = ''Q''\<rparr> \<and>
   fst (TemplatesLoader_get_template two_roots_env two_roots_loader ''t/sub/a.ipynb'' ()) =
     Inl (KeyError ''t/sub/a.ipynb'')"
proof -
  have "fst (TemplatesLoader_get_template demo_env demo_loader ''/sub/a.ipynb'' ()) =
     Inr \<lparr>path = ''t/sub/a.ipynb'', name = ''/sub/a.ipynb'', dirname = ''/sub'',
          filename = ''a.ipynb'', content = [CHR ''a'', CHR 0x0A, CHR ''b'']\<rparr> \<and>
   fst (TemplatesLoader_get_template demo_env demo_loader ''t/sub/a.ipynb'' ()) =
     Inl (KeyError ''t/sub/a.ipynb'')"
    by (simp add: TemplatesLoader_get_template_def demo_old demo_index_def demo_a_def)
  moreover have "produced two_roots_env (allowed_extensions two_roots_loader)
      (template_dirs two_roots_loader) =
     [\<lparr>path = ''t/sub/a.ipynb'', name = ''/sub/a.ipynb'', dirname = ''/sub'',
       filename = ''a.ipynb'', content = ''T''\<rparr>,
      \<lparr>path = ''q/sub/a.ipynb'', name = ''/sub/a.ipynb'', dirname = ''/sub'',
       filename = ''a.ipynb'', content = ''Q''\<rparr>]"
    unfolding two_roots_loader_fields
    by (simp add: produced_def read_records_def two_roots_collect two_roots_read)
  moreover have "fst (TemplatesLoader_get_template two_roots_env two_roots_loader ''/sub/a.ipynb'' ()) =
     Inr \<lparr>path = ''q/sub/a.ipynb'', name = ''/sub/a.ipynb'', dirname = ''/sub'',
          filename = ''a.ipynb'', content = ''Q''\<rparr> \<and>
   fst (TemplatesLoader_get_template two_roots_env two_roots_loader ''t/sub/a.ipynb'' ()) =
     Inl (KeyError ''t/sub/a.ipynb'')"
    unfolding TemplatesLoader_get_template_def TemplatesLoader_old_def two_roots_loader_fields
    by (simp add: two_roots_collect two_roots_read add_template_simp)
  ultimately show ?thesis by simp
qed

text \<open>
  C4, as the code has it: a group is created when a file is added to it, so every group
  of the returned mapping is non-empty, and each of its summaries is that of a matching
  file that was read, in a walked directory whose key is the group's.
\<close>

theorem groups_are_nonempty:
  assumes "fst (TemplatesLoader_get_templates env self cm) = Inr templates"
    and "templates g = Some l"
  shows "l \<noteq> [] \<and>
         (\<forall>s \<in> set l. \<exists>tdir \<in> set (template_dirs self). \<exists>data.
            listed_from env (allowed_extensions self) tdir data \<and>
            s = Summary (name data) \<and> g = str_strip (dirname data) sep)"
proof -
  from get_templates_old[OF assms(1)] obtain i where
    "fst (TemplatesLoader_old env self cm) = Inr (templates, i)" ..
  then have old:
    "old_loop env (allowed_extensions self) (template_dirs self) (Map.empty, Map.empty) =
       Inr (templates, i)"
    by (rule old_loopI)
  have "l \<noteq> []"
    by (rule old_groups_nonempty[OF old assms(2)])
  moreover have "\<exists>tdir \<in> set (template_dirs self). \<exists>data.
      listed_from env (allowed_extensions self) tdir data \<and>
      s = Summary (name data) \<and> g = str_strip (dirname data) sep" if "s \<in> set l" for s
    by (rule old_group_listed[OF old assms(2) that])
  ultimately show ?thesis by simp
qed

theorem groups_are_nonempty_witness:
  "fst (TemplatesLoader_get_templates demo_env demo_loader ()) = Inr demo_templates \<and>
   demo_templates ''sub'' = Some [Summary ''/sub/a.ipynb''] \<and>
   [Summary ''/sub/a.ipynb''] \<noteq> [] \<and>
   (\<exists>tdir \<in> set (template_dirs demo_loader). \<exists>data.
      listed_from demo_env (allowed_extensions demo_loader) tdir data \<and>
      Summary ''/sub/a.ipynb'' = Summary (name data) \<and> ''sub'' = str_strip (dirname data) sep)"
proof -
  have h1: "fst (TemplatesLoader_get_templates demo_env demo_loader ()) = Inr demo_templates"
    by (simp add: TemplatesLoader_get_templates_def demo_old)
  have h2: "demo_templates ''sub'' = Some [Summary ''/sub/a.ipynb'']"
    by (simp add: demo_templates_def)
  show ?thesis
    using h1 h2 groups_are_nonempty[OF h1 h2] by simp
qed

text \<open>
  C4 as stated fails: the walk traverses \<open>t/empty\<close>, which holds no matching file, and
  the returned mapping has no group for it.
\<close>

theorem empty_directory_has_no_group:
  "(''t/empty'', [], [''readme.txt'']) \<in> set (walk demo_env ''t'') \<and>
   fst (TemplatesLoader_get_templates demo_env demo_loader ()) = Inr demo_templates \<and>
   demo_templates ''empty'' = None \<and> demo_templates ''/empty'' = None"
proof -
  have "(''t/empty'', [], [''readme.txt'']) \<in> set (walk demo_env ''t'')"
    by (simp add: demo_env_def)
  moreover have "fst (TemplatesLoader_get_templates demo_env demo_loader ()) = Inr demo_templates"
    by (simp add: TemplatesLoader_get_templates_def demo_old)
  moreover have "demo_templates ''empty'' = None \<and> demo_templates ''/empty'' = None"
    by (simp add: demo_templates_def)
  ultimately show ?thesis by simp
qed

text \<open>
  C5, as the code has it: the test is on the directory name. A directory whose name, as
  \<open>os.walk\<close> gives it, contains \<open>.ipynb_checkpoints\<close> adds nothing to \<open>files\<close>, whatever
  its files and the allowed patterns are; and every listed name belongs to a record whose
  file lies in a walked directory without \<open>.ipynb_checkpoints\<close> in its name.
\<close>

theorem checkpoint_directory_is_excluded:
  assumes "fst (TemplatesLoader_old env self cm) = Inr (templates, template_by_path)"
    and "n \<in> catalog_names templates"
    and "str_in ''.ipynb_checkpoints'' d'"
  shows "walk_step env exts tdir' (d', ds', fs') = [] \<and>
         (\<exists>data tdir d ds fs fn.
            template_by_path n = Some data \<and> tdir \<in> set (template_dirs self) \<and>
            (d, ds, fs) \<in> set (walk env tdir) \<and> fn \<in> set fs \<and>
            path data = path_join d fn \<and> \<not> str_in ''.ipynb_checkpoints'' d)"
proof -
  have "walk_step env exts tdir' (d', ds', fs') = []"
    using assms(3) by (simp add: walk_step_def)
  moreover from assms(2) old_names_dom[OF old_loopI[OF assms(1)]] obtain data where
    d: "template_by_path n = Some data" by auto
  from old_listed[OF old_loopI[OF assms(1)] d] obtain tdir where
    "tdir \<in> set (template_dirs self)" "listed_from env (allowed_extensions self) tdir data"
    by blast
  then have "\<exists>tdir d ds fs fn.
            tdir \<in> set (template_dirs self) \<and>
            (d, ds, fs) \<in> set (walk env tdir) \<and> fn \<in> set fs \<and>
            path data = path_join d fn \<and> \<not> str_in ''.ipynb_checkpoints'' d"
    unfolding listed_from_def by force
  ultimately show ?thesis using d by blast
qed

theorem checkpoint_directory_is_excluded_witness:
  "fst (TemplatesLoader_old demo_env demo_loader ()) = Inr (demo_templates, demo_index) \<and>
   ''/sub/a.ipynb'' \<in> catalog_names demo_templates \<and>
   str_in ''.ipynb_checkpoints'' ''t/sub/.ipynb_checkpoints'' \<and>
   walk_step demo_env [''*.ipynb''] ''t'' (''t/sub/.ipynb_checkpoints'', [], [''a-checkpoint.ipynb'']) = [] \<and>
   (\<exists>data tdir d ds fs fn.
      demo_index ''/sub/a.ipynb'' = Some data \<and> tdir \<in> set (template_dirs demo_loader) \<and>
      (d, ds, fs) \<in> set (walk demo_env tdir) \<and> fn \<in> set fs \<and>
      path data = path_join d fn \<and> \<not> str_in ''.ipynb_checkpoints'' d)"
proof -
  have h1: "fst (TemplatesLoader_old demo_env demo_loader ()) = Inr (demo_templates, demo_index)"
    by (simp add: demo_old)
  have h2: "''/sub/a.ipynb'' \<in> catalog_names demo_templates"
    by (rule demo_names)
  have h3: "str_in ''.ipynb_checkpoints'' ''t/sub/.ipynb_checkpoints''"
    by simp
  show ?thesis
    using h1 h2 h3
      checkpoint_directory_is_excluded[OF h1 h2 h3, where exts = "[''*.ipynb'']"
        and tdir' = "''t''" and ds' = "[]" and fs' = "[''a-checkpoint.ipynb'']"]
    by simp
qed

text \<open>
  C5 as stated fails: a file whose own name is \<open>.ipynb_checkpoints\<close>, in a directory
  without the marker, is listed when a pattern matches it, although its path contains
  the marker.
\<close>

theorem file_named_like_the_marker_is_listed:
  "(''t/sub'', [], [''.ipynb_checkpoints'']) \<in> set (walk dotfile_env ''t'') \<and>
   str_in ''.ipynb_checkpoints'' (path_join ''t/sub'' ''.ipynb_checkpoints'') \<and>
   fst (TemplatesLoader_get_templates dotfile_env dotfile_loader ()) =
     Inr [''sub'' \<mapsto> [Summary ''/sub/.ipynb_checkpoints'']]"
proof -
  have "(''t/sub'', [], [''.ipynb_checkpoints'']) \<in> set (walk dotfile_env ''t'')"
    by (simp add: dotfile_env_def)
  moreover have "str_in ''.ipynb_checkpoints'' (path_join ''t/sub'' ''.ipynb_checkpoints'')"
    by (simp add: path_join_def sep_def)
  moreover have "fst (TemplatesLoader_get_templates dotfile_env dotfile_loader ()) =
     Inr [''sub'' \<mapsto> [Summary ''/sub/.ipynb_checkpoints'']]"
  proof -
    have c: "collect_files dotfile_env [''*''] ''t'' =
        [(''t/sub/.ipynb_checkpoints'', ''/sub'', ''.ipynb_checkpoints'')]"
      by (simp add: collect_files_def walk_step_def dotfile_env_def TEMPLATES_IGNORE_FILE_def
          path_join_def sep_def str_replace_def)
    have parent: "abspath dotfile_env (path_join (realpath dotfile_env ''t'') pardir) = ''/w''"
      by (simp add: dotfile_env_def path_join_def pardir_def sep_def)
    have r: "open_read dotfile_env (path_join ''/w'' ''t/sub/.ipynb_checkpoints'') = Inr ''{}''"
      by (simp add: open_read_def dotfile_env_def path_join_def sep_def)
    have j: "path_join ''/sub'' ''.ipynb_checkpoints'' = ''/sub/.ipynb_checkpoints''"
      and s: "str_strip ''/sub'' sep = ''sub''"
      by (simp_all add: path_join_def sep_def str_strip_def)
    have l: "allowed_extensions dotfile_loader = [''*'']" "template_dirs dotfile_loader = [''t'']"
      by (simp_all add: dotfile_loader_def TemplatesLoader_init_def py_or_def)
    show ?thesis
      unfolding TemplatesLoader_get_templates_def TemplatesLoader_old_def l
      by (simp add: c parent r add_template_simp j s)
  qed
  ultimately show ?thesis by simp
qed

text \<open>
  C6, as the code has it: for a name \<open>p\<close> of the catalog, in the same environment,
  \<open>get_template(p)\<close> returns a record named \<open>p\<close>, built from a walked file of one of the
  roots, whose content is the decoded text of the file that was opened for it after the
  translation of \<open>\r\n\<close> and \<open>\r\<close> to \<open>\n\<close>.
\<close>

theorem listed_template_is_fetched:
  assumes "fst (TemplatesLoader_get_templates env self cm) = Inr templates"
    and "p \<in> catalog_names templates"
  shows "\<exists>data tdir s.
           fst (TemplatesLoader_get_template env self p cm) = Inr data \<and> name data = p \<and>
           tdir \<in> set (template_dirs self) \<and>
           listed_from env (allowed_extensions self) tdir data \<and>
           file_utf8 env (path_join (abspath env (path_join (realpath env tdir) pardir))
             (path data)) = Inr s \<and>
           content data = universal_newlines s"
proof -
  from get_template_listed[OF assms] obtain data tdir where
    d: "fst (TemplatesLoader_get_template env self p cm) = Inr data" "name data = p"
      "tdir \<in> set (template_dirs self)" "listed_from env (allowed_extensions self) tdir data"
    by blast
  from listed_from_content[OF d(4)] obtain s where
    "file_utf8 env (path_join (abspath env (path_join (realpath env tdir) pardir))
       (path data)) = Inr s" "content data = universal_newlines s"
    by blast
  with d show ?thesis by blast
qed

theorem listed_template_is_fetched_witness:
  "fst (TemplatesLoader_get_templates demo_env demo_loader ()) = Inr demo_templates \<and>
   ''/sub/a.ipynb'' \<in> catalog_names demo_templates \<and>
   (\<exists>data tdir s.
      fst (TemplatesLoader_get_template demo_env demo_loader ''/sub/a.ipynb'' ()) = Inr data \<and>
      name data = ''/sub/a.ipynb'' \<and> tdir \<in> set (template_dirs demo_loader) \<and>
      listed_from demo_env (allowed_extensions demo_loader) tdir data \<and>
      file_utf8 demo_env
        (path_join (abspath demo_env (path_join (realpath demo_env tdir) pardir)) (path data)) =
        Inr s \<and>
      content data = universal_newlines s)"
proof -
  have h1: "fst (TemplatesLoader_get_templates demo_env demo_loader ()) = Inr demo_templates"
    by (simp add: TemplatesLoader_get_templates_def demo_old)
  have h2: "''/sub/a.ipynb'' \<in> catalog_names demo_templates"
    by (rule demo_names)
  show ?thesis
    using h1 h2 listed_template_is_fetched[OF h1 h2] by simp
qed

text \<open>
  C6 as stated fails: the file of \<open>/sub/a.ipynb\<close> decodes to \<open>a\r\nb\<close> and the record
  returned for it has the content \<open>a\nb\<close>.
\<close>

theorem carriage_returns_are_translated:
  "fst (TemplatesLoader_get_templates demo_env demo_loader ()) = Inr demo_templates \<and>
   demo_templates ''sub'' = Some [Summary ''/sub/a.ipynb''] \<and>
   file_utf8 demo_env ''/w/t/sub/a.ipynb'' = Inr [CHR ''a'', CHR 0x0D, CHR 0x0A, CHR ''b''] \<and>
   fst (TemplatesLoader_get_template demo_env demo_loader ''/sub/a.ipynb'' ()) =
     Inr \<lparr>path = ''t/sub/a.ipynb'', name = ''/sub/a.ipynb'', dirname = ''/sub'',
          filename = ''a.ipynb'', content = [CHR ''a'', CHR 0x0A, CHR ''b'']\<rparr>"
proof -
  have "fst (TemplatesLoader_get_templates demo_env demo_loader ()) = Inr demo_templates"
    by (simp add: TemplatesLoader_get_templates_def demo_old)
  moreover have "demo_templates ''sub'' = Some [Summary ''/sub/a.ipynb'']"
    by (simp add: demo_templates_def)
  moreover have "file_utf8 demo_env ''/w/t/sub/a.ipynb'' = Inr [CHR ''a'', CHR 0x0D, CHR 0x0A, CHR ''b'']"
    by (simp add: demo_env_def)
  moreover have "fst (TemplatesLoader_get_template demo_env demo_loader ''/sub/a.ipynb'' ()) =
     Inr \<lparr>path = ''t/sub/a.ipynb'', name = ''/sub/a.ipynb'', dirname = ''/sub'',
          filename = ''a.ipynb'', content = [CHR ''a'', CHR 0x0A, CHR ''b'']\<rparr>"
    by (simp add: TemplatesLoader_get_template_def demo_old demo_index_def demo_a_def)
  ultimately show ?thesis by simp
qed

text \<open>
  C7: when the walk has produced its index and \<open>p\<close> is not a key of it, \<open>get_template(p)\<close>
  raises \<open>KeyError(p)\<close>; such a \<open>p\<close> is not a name of the catalog either.
\<close>

theorem unknown_path_raises_KeyError:
  assumes "fst (TemplatesLoader_old env self cm) = Inr (templates, template_by_path)"
    and "p \<notin> dom template_by_path"
  shows "fst (TemplatesLoader_get_template env self p cm) = Inl (KeyError p) \<and>
         p \<notin> catalog_names templates"
  using get_template_missing[OF assms(1), of p] assms(2) old_names_dom[OF old_loopI[OF assms(1)]]
  by (simp add: domIff)

theorem unknown_path_raises_KeyError_witness:
  "fst (TemplatesLoader_old demo_env demo_loader ()) = Inr (demo_templates, demo_index) \<and>
   ''t/sub/a.ipynb'' \<notin> dom demo_index \<and>
   fst (TemplatesLoader_get_template demo_env demo_loader ''t/sub/a.ipynb'' ()) =
     Inl (KeyError ''t/sub/a.ipynb'') \<and>
   ''t/sub/a.ipynb'' \<notin> catalog_names demo_templates"
proof -
  have h1: "fst (TemplatesLoader_old demo_env demo_loader ()) = Inr (demo_templates, demo_index)"
    by (simp add: demo_old)
  have h2: "''t/sub/a.ipynb'' \<notin> dom demo_index"
    by (simp add: demo_index_def)
  show ?thesis
    using h1 h2 unknown_path_raises_KeyError[OF h1 h2] by simp
qed



section \<open>The store-backed traversal\<close>

lemma scan_children_set:
  "set (fst (scan_children cs (pending, found))) =
     set pending \<union> cpath ` {x \<in> set cs. ctype x = ''directory''}"
  by (induction cs arbitrary: pending found) auto

lemma scan_children_distinct:
  "distinct pending \<Longrightarrow> distinct (fst (scan_children cs (pending, found)))"
  by (induction cs arbitrary: pending found) auto

lemma scan_children_found:
  "snd (scan_children cs (pending, found)) =
     found @ map (\<lambda>x. Summary (cpath x)) (filter (\<lambda>x. ctype x = ''notebook'') cs)"
  by (induction cs arbitrary: pending found) auto

lemma subdirs_listed:
  "get_directory cm d = Inr cs \<Longrightarrow> set (subdirs cm d) = cpath ` {x \<in> set cs. ctype x = ''directory''}"
  by (auto simp: subdirs_def)

lemma notebooks_listed:
  "get_directory cm d = Inr cs \<Longrightarrow>
   notebooks cm d = map (\<lambda>x. Summary (cpath x)) (filter (\<lambda>x. ctype x = ''notebook'') cs)"
  by (simp add: notebooks_def)

lemma remove_nth_set:
  assumes "distinct xs" and "i < length xs"
  shows "set (take i xs @ drop (Suc i) xs) = set xs - {xs ! i}"
    and "distinct (take i xs @ drop (Suc i) xs)"
proof -
  have xs: "xs = take i xs @ xs ! i # drop (Suc i) xs"
    using assms(2) by (simp add: id_take_nth_drop)
  then have d: "distinct (take i xs @ xs ! i # drop (Suc i) xs)"
    using assms(1) by simp
  then show "distinct (take i xs @ drop (Suc i) xs)"
    by auto
  have "set xs = set (take i xs @ xs ! i # drop (Suc i) xs)"
    using xs by simp
  then show "set (take i xs @ drop (Suc i) xs) = set xs - {xs ! i}"
    using d by auto
qed

lemma reachable_closed:
  assumes "root \<in> S" and "\<forall>d \<in> S. set (subdirs cm d) \<subseteq> S"
  shows "reachable cm root \<subseteq> S"
proof
  fix d assume "d \<in> reachable cm root"
  then show "d \<in> S"
    by (induction rule: reachable.induct) (use assms in auto)
qed

lemma scan_inv_init: "scan_inv cm root [root] [] []"
  by (simp add: scan_inv_def reachable.root)

lemma scan_inv_step:
  assumes H: "hierarchy cm root" and I: "scan_inv cm root P F A"
    and i: "i < length P"
    and cs: "get_directory cm (P ! i) = Inr cs"
    and sc: "scan_children cs (take i P @ drop (Suc i) P, F) = (P', F')"
  shows "scan_inv cm root P' F' (A @ [P ! i])"
proof -
  let ?p = "P ! i"
  let ?R = "reachable cm root"
  from I have dP: "distinct P" and dA: "distinct A" and PA: "set P \<inter> set A = {}"
    and sub: "set P \<union> set A \<subseteq> ?R" and rt: "root \<in> set P \<union> set A"
    and cl: "\<forall>d \<in> set A. set (subdirs cm d) \<subseteq> set P \<union> set A"
    and par: "\<forall>c \<in> set P \<union> set A. c = root \<or> (\<exists>d \<in> set A. c \<in> set (subdirs cm d))"
    and F: "F = concat (map (notebooks cm) A)"
    by (simp_all add: scan_inv_def)
  from H have uniq: "\<And>d d'. d \<in> ?R \<Longrightarrow> d' \<in> ?R \<Longrightarrow> d \<noteq> d' \<Longrightarrow>
      set (subdirs cm d) \<inter> set (subdirs cm d') = {}"
    and noroot: "\<And>d. d \<in> ?R \<Longrightarrow> root \<notin> set (subdirs cm d)"
    by (auto simp: hierarchy_def)
  have pP: "?p \<in> set P" using i by simp
  then have pR: "?p \<in> ?R" and pA: "?p \<notin> set A"
    using sub PA by auto
  have P1: "set (take i P @ drop (Suc i) P) = set P - {?p}"
    and dP1: "distinct (take i P @ drop (Suc i) P)"
    using remove_nth_set[OF dP i] by simp_all
  have setP': "set P' = (set P - {?p}) \<union> set (subdirs cm ?p)"
    using scan_children_set[of cs "take i P @ drop (Suc i) P" F] sc P1 subdirs_listed[OF cs]
    by simp
  have dP': "distinct P'"
    using scan_children_distinct[OF dP1, of cs F] sc by simp
  have F': "F' = F @ notebooks cm ?p"
    using scan_children_found[of cs "take i P @ drop (Suc i) P" F] sc notebooks_listed[OF cs]
    by simp
  have subR: "set (subdirs cm ?p) \<subseteq> ?R"
    using pR by (auto intro: reachable.sub)
  have fresh: "c \<notin> set A \<and> c \<noteq> ?p" if c: "c \<in> set (subdirs cm ?p)" for c
  proof -
    have croot: "c \<noteq> root" using noroot[OF pR] c by auto
    have "c \<notin> set A"
    proof
      assume "c \<in> set A"
      with par croot obtain d where d: "d \<in> set A" "c \<in> set (subdirs cm d)" by auto
      then have "d \<in> ?R" "d \<noteq> ?p" using sub pA by auto
      from uniq[OF this(1) pR this(2)] d(2) c show False by auto
    qed
    moreover have "c \<noteq> ?p"
    proof
      assume e: "c = ?p"
      with par pP croot obtain d where d: "d \<in> set A" "?p \<in> set (subdirs cm d)" by auto
      then have "d \<in> ?R" "d \<noteq> ?p" using sub pA by auto
      from uniq[OF this(1) pR this(2)] d(2) c e show False by auto
    qed
    ultimately show ?thesis by simp
  qed
  have "distinct (A @ [?p])" using dA pA by simp
  moreover have "set P' \<inter> set (A @ [?p]) = {}"
    using setP' PA fresh by auto
  moreover have "set P' \<union> set (A @ [?p]) \<subseteq> ?R"
    using setP' sub subR pR by auto
  moreover have "root \<in> set P' \<union> set (A @ [?p])"
    using setP' rt by auto
  moreover have "\<forall>d \<in> set (A @ [?p]). set (subdirs cm d) \<subseteq> set P' \<union> set (A @ [?p])"
    using setP' cl by auto
  moreover have "\<forall>c \<in> set P' \<union> set (A @ [?p]).
      c = root \<or> (\<exists>d \<in> set (A @ [?p]). c \<in> set (subdirs cm d))"
  proof
    fix c assume "c \<in> set P' \<union> set (A @ [?p])"
    then consider "c \<in> set P \<union> set A" | "c \<in> set (subdirs cm ?p)"
      using setP' pP by auto
    then show "c = root \<or> (\<exists>d \<in> set (A @ [?p]). c \<in> set (subdirs cm d))"
    proof cases
      case 1
      with par show ?thesis by auto
    next
      case 2
      then show ?thesis by auto
    qed
  qed
  moreover have "F' = concat (map (notebooks cm) (A @ [?p]))"
    using F F' by simp
  ultimately show ?thesis
    using dP' by (simp add: scan_inv_def)
qed

lemma scan_inv_done:
  assumes "scan_inv cm root [] F A"
  shows "distinct A \<and> set A = reachable cm root \<and> F = concat (map (notebooks cm) A)"
proof -
  from assms have "root \<in> set A" "\<forall>d \<in> set A. set (subdirs cm d) \<subseteq> set A"
    "set A \<subseteq> reachable cm root"
    by (simp_all add: scan_inv_def)
  then have "set A = reachable cm root"
    using reachable_closed[of root "set A" cm] by auto
  with assms show ?thesis by (simp add: scan_inv_def)
qed

lemma scan_loop_terminates:
  assumes H: "hierarchy cm root" and I: "scan_inv cm root P F A"
  shows "\<exists>A'. scan_loop pick cm P F A = Some (Inr (concat (map (notebooks cm) A'), A')) \<and>
           distinct A' \<and> set A' = reachable cm root"
  using I
proof (induction "card (reachable cm root - set A)" arbitrary: P F A rule: less_induct)
  case less
  show ?case
  proof (cases "P = []")
    case True
    with scan_inv_done[of cm root F A] less.prems show ?thesis
      by (subst scan_loop.simps) auto
  next
    case False
    let ?i = "pick A P mod length P"
    let ?p = "P ! ?i"
    have i: "?i < length P" using False by simp
    then have pP: "?p \<in> set P" by simp
    with less.prems have pR: "?p \<in> reachable cm root" and pA: "?p \<notin> set A"
      by (auto simp: scan_inv_def)
    with H obtain cs where cs: "get_directory cm ?p = Inr cs"
      by (auto simp: hierarchy_def)
    obtain P' F' where sc: "scan_children cs (take ?i P @ drop (Suc ?i) P, F) = (P', F')"
      by (cases "scan_children cs (take ?i P @ drop (Suc ?i) P, F)")
    have inv': "scan_inv cm root P' F' (A @ [?p])"
      by (rule scan_inv_step[OF H less.prems i cs sc])
    have fin: "finite (reachable cm root)" using H by (simp add: hierarchy_def)
    have "reachable cm root - set (A @ [?p]) \<subset> reachable cm root - set A"
      using pR pA by auto
    then have "card (reachable cm root - set (A @ [?p])) < card (reachable cm root - set A)"
      using fin by (intro psubset_card_mono) auto
    from less.hyps[OF this inv'] obtain A' where
      "scan_loop pick cm P' F' (A @ [?p]) = Some (Inr (concat (map (notebooks cm) A'), A'))"
      "distinct A'" "set A' = reachable cm root"
      by blast
    moreover have "scan_loop pick cm P F A = scan_loop pick cm P' F' (A @ [?p])"
      using False cs sc by (subst scan_loop.simps) (simp add: Let_def)
    ultimately show ?thesis by auto
  qed
qed

lemma scan_loop_from_root:
  assumes "hierarchy cm root"
  shows "\<exists>asked. scan_loop pick cm [root] [] [] = Some (Inr (concat (map (notebooks cm) asked), asked)) \<and>
           distinct asked \<and> set asked = reachable cm root"
  using scan_loop_terminates[OF assms scan_inv_init] by simp

lemma mset_found:
  assumes "distinct asked"
  shows "mset (concat (map (notebooks cm) asked)) = (\<Sum>d \<in> set asked. mset (notebooks cm d))"
  using assms by (simp add: mset_concat sum_list_distinct_conv_sum_set comp_def)

lemma scan_groups_correct:
  assumes "\<forall>g \<in> set groups. hierarchy cm (snd g)" and "distinct (map fst groups)"
  shows "\<exists>templates asked_all.
           scan_groups pick cm groups (t0, a0) = Some (Inr (templates, asked_all)) \<and>
           (\<forall>g. g \<notin> fst ` set groups \<longrightarrow> templates g = t0 g) \<and>
           (\<forall>g \<in> set groups. \<exists>asked.
              scan_loop pick cm [snd g] [] [] =
                Some (Inr (concat (map (notebooks cm) asked), asked)) \<and>
              templates (fst g) = Some (concat (map (notebooks cm) asked)))"
  using assms
proof (induction groups arbitrary: t0 a0)
  case Nil
  then show ?case by simp
next
  case (Cons g groups)
  obtain gname start where g: "g = (gname, start)" by (cases g)
  from Cons.prems(1) g have "hierarchy cm start" by simp
  from scan_loop_from_root[OF this, of pick] obtain asked where
    a: "scan_loop pick cm [start] [] [] = Some (Inr (concat (map (notebooks cm) asked), asked))"
    by blast
  let ?t1 = "t0(gname \<mapsto> concat (map (notebooks cm) asked))"
  from Cons.prems have "\<forall>g \<in> set groups. hierarchy cm (snd g)" "distinct (map fst groups)"
    by simp_all
  from Cons.IH[OF this, of ?t1 "a0 @ asked"] obtain templates asked_all where
    r: "scan_groups pick cm groups (?t1, a0 @ asked) = Some (Inr (templates, asked_all))"
    and keep: "\<forall>k. k \<notin> fst ` set groups \<longrightarrow> templates k = ?t1 k"
    and each: "\<forall>k \<in> set groups. \<exists>asked.
              scan_loop pick cm [snd k] [] [] =
                Some (Inr (concat (map (notebooks cm) asked), asked)) \<and>
              templates (fst k) = Some (concat (map (notebooks cm) asked))"
    by blast
  have "scan_groups pick cm (g # groups) (t0, a0) = Some (Inr (templates, asked_all))"
    using a r g by simp
  moreover have "\<forall>k. k \<notin> fst ` set (g # groups) \<longrightarrow> templates k = t0 k"
    using keep g by auto
  moreover have "gname \<notin> fst ` set groups"
    using Cons.prems(2) g by auto
  then have "templates gname = Some (concat (map (notebooks cm) asked))"
    using keep by simp
  then have "\<forall>k \<in> set (g # groups). \<exists>asked.
              scan_loop pick cm [snd k] [] [] =
                Some (Inr (concat (map (notebooks cm) asked), asked)) \<and>
              templates (fst k) = Some (concat (map (notebooks cm) asked))"
    using each a g by auto
  ultimately show ?case by blast
qed

subsection \<open>The example store\<close>

lemma demo_subdirs:
  "subdirs demo_store ''r'' = [''r/a'']" "subdirs demo_store ''r/a'' = []"
  by (simp_all add: subdirs_def demo_store_def)

lemma demo_reachable: "reachable demo_store ''r'' = {''r'', ''r/a''}"
proof
  show "reachable demo_store ''r'' \<subseteq> {''r'', ''r/a''}"
    by (rule reachable_closed) (simp_all add: demo_subdirs)
  have "''r/a'' \<in> reachable demo_store ''r''"
    by (rule reachable.sub[OF reachable.root]) (simp add: demo_subdirs)
  then show "{''r'', ''r/a''} \<subseteq> reachable demo_store ''r''"
    by (simp add: reachable.root)
qed

lemma demo_hierarchy: "hierarchy demo_store ''r''"
  unfolding hierarchy_def demo_reachable
  by (simp add: demo_subdirs) (simp add: demo_store_def)

lemma demo_scan:
  "scan_loop (\<lambda>asked pending. 0) demo_store [''r''] [] [] =
     Some (Inr ([Summary ''r/n.ipynb'', Summary ''r/a/m.ipynb''], [''r'', ''r/a'']))"
  by (simp add: scan_loop.simps demo_store_def)

text \<open>
  C9: when the store below every configured root is a hierarchy, \<open>get_templates\<close> returns
  for every way of popping the pending set; for each group the loop asks the store to
  list every directory reachable from the group's root, each exactly once, and the
  group's list consists of the notebooks of the directories asked: as a multiset it is
  the sum of the notebooks of the reachable directories, whatever the order of popping.
\<close>

theorem store_traversal_visits_each_directory_once:
  assumes "\<forall>g \<in> set (template_dirs self). hierarchy cm (snd g)"
    and "distinct (map fst (template_dirs self))"
    and "(gname, root) \<in> set (template_dirs self)"
  shows "\<exists>templates asked.
           fst (ContentsManagerTemplatesLoader_get_templates pick self cm) = Some (Inr templates) \<and>
           scan_loop pick cm [root] [] [] = Some (Inr (concat (map (notebooks cm) asked), asked)) \<and>
           distinct asked \<and> set asked = reachable cm root \<and>
           templates gname = Some (concat (map (notebooks cm) asked)) \<and>
           mset (concat (map (notebooks cm) asked)) =
             (\<Sum>d \<in> reachable cm root. mset (notebooks cm d))"
proof -
  from scan_groups_correct[OF assms(1,2), of pick Map.empty "[]"] obtain templates asked_all where
    r: "scan_groups pick cm (template_dirs self) (Map.empty, []) = Some (Inr (templates, asked_all))"
    and each: "\<forall>g \<in> set (template_dirs self). \<exists>asked.
              scan_loop pick cm [snd g] [] [] =
                Some (Inr (concat (map (notebooks cm) asked), asked)) \<and>
              templates (fst g) = Some (concat (map (notebooks cm) asked))"
    by blast
  from each assms(3) obtain asked where
    a: "scan_loop pick cm [root] [] [] = Some (Inr (concat (map (notebooks cm) asked), asked))"
      "templates gname = Some (concat (map (notebooks cm) asked))"
    by force
  from assms(1,3) have "hierarchy cm root" by force
  from scan_loop_from_root[OF this, of pick] a(1) have d: "distinct asked" "set asked = reachable cm root"
    by auto
  have "fst (ContentsManagerTemplatesLoader_get_templates pick self cm) = Some (Inr templates)"
    using r by (simp add: ContentsManagerTemplatesLoader_get_templates_def)
  then show ?thesis
    using a d mset_found[OF d(1), of cm] by auto
qed

theorem store_traversal_visits_each_directory_once_witness:
  "hierarchy demo_store ''r'' \<and>
   distinct (map fst (template_dirs demo_store_loader)) \<and>
   (''g'', ''r'') \<in> set (template_dirs demo_store_loader) \<and>
   (\<exists>templates asked.
      fst (ContentsManagerTemplatesLoader_get_templates (\<lambda>asked pending. 0) demo_store_loader
        demo_store) = Some (Inr templates) \<and>
      scan_loop (\<lambda>asked pending. 0) demo_store [''r''] [] [] =
        Some (Inr (concat (map (notebooks demo_store) asked), asked)) \<and>
      distinct asked \<and> set asked = reachable demo_store ''r'' \<and>
      templates ''g'' = Some (concat (map (notebooks demo_store) asked)) \<and>
      mset (concat (map (notebooks demo_store) asked)) =
        (\<Sum>d \<in> reachable demo_store ''r''. mset (notebooks demo_store d))) \<and>
   fst (ContentsManagerTemplatesLoader_get_templates (\<lambda>asked pending. 0) demo_store_loader
     demo_store) = Some (Inr [''g'' \<mapsto> [Summary ''r/n.ipynb'', Summary ''r/a/m.ipynb'']])"
proof -
  have dirs: "template_dirs demo_store_loader = [(''g'', ''r'')]"
    by (simp add: demo_store_loader_def ContentsManagerTemplatesLoader_init_def)
  have h1: "\<forall>g \<in> set (template_dirs demo_store_loader). hierarchy demo_store (snd g)"
    by (simp add: dirs demo_hierarchy)
  have h2: "distinct (map fst (template_dirs demo_store_loader))"
    by (simp add: dirs)
  have h3: "(''g'', ''r'') \<in> set (template_dirs demo_store_loader)"
    by (simp add: dirs)
  have run: "fst (ContentsManagerTemplatesLoader_get_templates (\<lambda>asked pending. 0)
      demo_store_loader demo_store) =
      Some (Inr [''g'' \<mapsto> [Summary ''r/n.ipynb'', Summary ''r/a/m.ipynb'']])"
    by (simp add: ContentsManagerTemplatesLoader_get_templates_def dirs demo_scan)
  show ?thesis
    using demo_hierarchy h2 h3 run
      store_traversal_visits_each_directory_once[OF h1 h2 h3, of "\<lambda>asked pending. 0"]
    by simp
qed

section \<open>The content-fetch endpoint\<close>




lemma get_argument_absent:
  assumes "arguments h arg = None \<or>
           (\<exists>vs. arguments h arg = Some vs \<and> (vs = [] \<or> clean_argument (last vs) = []))"
  shows "get_argument h arg [] = []"
  using assms by (auto simp: get_argument_def last_map)


lemma serve_no_template:
  assumes "current_user h \<noteq> None" and "get_argument h ''template'' [] = []"
    and "\<not> finished h"
  shows "serve env json_dumps h =
           Inr (h\<lparr>status_code := 404, sent := Some (404, write_buffer h), finished := True\<rparr>)"
  using assms
  by (auto simp: serve_def authenticated_def TemplatesHandler_get_def set_status_def finish_def)









text \<open>
  C2: an authenticated request whose \<open>template\<close> parameter is absent, or whose last
  value is empty once \<open>get_argument\<close> has stripped it, is answered with status 404 and an
  empty body, whatever the loader, the file system and the store are; the handler is
  otherwise as it was created.
\<close>

theorem missing_template_parameter_is_404:
  assumes "user \<noteq> None"
    and "q ''template'' = None \<or>
         (\<exists>vs. q ''template'' = Some vs \<and> (vs = [] \<or> clean_argument (last vs) = []))"
  shows "serve env json_dumps (new_handler ldr cm user q) =
           Inr ((new_handler ldr cm user q)
                  \<lparr>status_code := 404, sent := Some (404, []), finished := True\<rparr>)"
proof -
  let ?h = "new_handler ldr cm user q"
  have "get_argument ?h ''template'' [] = []"
    by (rule get_argument_absent) (use assms(2) in \<open>simp add: new_handler_def\<close>)
  moreover have "current_user ?h \<noteq> None" "\<not> finished ?h" "write_buffer ?h = []"
    using assms(1) by (simp_all add: new_handler_def)
  ultimately show ?thesis
    using serve_no_template[of ?h env json_dumps] by simp
qed

theorem missing_template_parameter_is_404_witness:
  "Some ''u'' \<noteq> None \<and> Map.empty ''template'' = None \<and>
   map_sum id sent (serve demo_env no_dumps
     (new_handler (Local demo_loader) no_store (Some ''u'') Map.empty)) = Inr (Some (404, [])) \<and>
   [''template'' \<mapsto> [[]]] ''template'' = Some [[]] \<and> clean_argument (last [[]]) = [] \<and>
   map_sum id sent (serve demo_env no_dumps
     (new_handler (Local demo_loader) no_store (Some ''u'') [''template'' \<mapsto> [[]]])) =
     Inr (Some (404, []))"
proof -
  have c: "clean_argument (last [[]]) = []"
    by (simp add: clean_argument_def remove_control_chars_def)
  show ?thesis
    using missing_template_parameter_is_404[of "Some ''u''" Map.empty demo_env no_dumps
        "Local demo_loader" no_store]
      missing_template_parameter_is_404[of "Some ''u''" "[''template'' \<mapsto> [[]]]" demo_env no_dumps
        "Local demo_loader" no_store] c
    by simp
qed




section \<open>The loaders' configuration\<close>

text \<open>
  C10: a call of \<open>get_templates\<close> or \<open>get_template\<close>, on either loader, with any
  arguments and any outcome, returns the loader object as it received it, so
  \<open>template_dirs\<close>, \<open>allowed_extensions\<close> and \<open>template_label\<close> are as \<open>__init__\<close> set
  them.
\<close>

theorem loader_configuration_is_not_mutated:
  "snd (TemplatesLoader_get_templates env self cm) = self \<and>
   snd (TemplatesLoader_get_template env self p cm) = self \<and>
   snd (ContentsManagerTemplatesLoader_get_templates pick self' cm') = self' \<and>
   snd (ContentsManagerTemplatesLoader_get_template json_dumps self' p' cm') = self'"
proof -
  have "snd (TemplatesLoader_old env self cm) = self"
    by (simp add: TemplatesLoader_old_def)
  then have "snd (TemplatesLoader_get_templates env self cm) = self"
    and "snd (TemplatesLoader_get_template env self p cm) = self"
    by (auto simp: TemplatesLoader_get_templates_def TemplatesLoader_get_template_def
        split: prod.splits sum.splits option.splits)
  moreover have "snd (ContentsManagerTemplatesLoader_get_templates pick self' cm') = self'"
    by (simp add: ContentsManagerTemplatesLoader_get_templates_def
        split: prod.splits sum.splits option.splits)
  moreover have "snd (ContentsManagerTemplatesLoader_get_template json_dumps self' p' cm') = self'"
    by (simp add: ContentsManagerTemplatesLoader_get_template_def split: sum.splits)
  ultimately show ?thesis by simp
qed

theorem loader_configuration_is_not_mutated_witness:
  "snd (TemplatesLoader_get_templates demo_env demo_loader no_store) = demo_loader \<and>
   snd (TemplatesLoader_get_template demo_env demo_loader ''/sub/a.ipynb'' no_store) = demo_loader \<and>
   snd (ContentsManagerTemplatesLoader_get_templates (\<lambda>asked pending. 0) demo_store_loader
     demo_store) = demo_store_loader \<and>
   snd (ContentsManagerTemplatesLoader_get_template no_dumps demo_store_loader ''r/n.ipynb''
     demo_store) = demo_store_loader"
  using loader_configuration_is_not_mutated[of demo_env demo_loader no_store "''/sub/a.ipynb''"
      "\<lambda>asked pending. 0" demo_store_loader demo_store no_dumps "''r/n.ipynb''"]
  by simp

end
